theory Spec2Isabelle
  imports Main "HOL-Library.Log_Nat"
begin

section \<open>Python values used by the DOF parser\<close>

text \<open>
  The program is \<^verbatim>\<open>object_data_parser.py\<close>. Its strings are Python \<^verbatim>\<open>str\<close> values.
  Lines, fields and the strings given to \<^verbatim>\<open>float\<close> are modelled as HOL strings,
  whose characters are the code points 0 to 255 (\<open>of_char\<close> reads the code point); DOF
  files are ASCII. The hemisphere of the converter, whose upper case is taken, is a list
  of code points of any size. Exceptions are values of \<open>error\<close>, and a computation that
  may raise returns \<open>error + 'a\<close>.
\<close>

datatype error = IndexError | ValueError | ZeroDivisionError

definition py_bind :: "error + 'a \<Rightarrow> ('a \<Rightarrow> error + 'b) \<Rightarrow> error + 'b" where
  "py_bind m f = (case m of Inl e \<Rightarrow> Inl e | Inr v \<Rightarrow> f v)"

text \<open>
  \<^verbatim>\<open>str.isspace\<close> of one character, which is what \<^verbatim>\<open>str.strip()\<close> removes: below
  code point 256 these are TAB, LF, VT, FF, CR, the separators FS, GS, RS, US, the space,
  NEL (0x85) and the no-break space (0xA0).
\<close>

definition isspace :: "char \<Rightarrow> bool" where
  "isspace c = (of_char c \<in> {9, 10, 11, 12, 13, 28, 29, 30, 31, 32, 133, 160 :: nat})"

text \<open>\<^verbatim>\<open>s.lstrip()\<close>, \<^verbatim>\<open>s.rstrip()\<close> and \<^verbatim>\<open>s.strip()\<close> with no argument.\<close>

definition py_lstrip :: "string \<Rightarrow> string" where
  "py_lstrip s = dropWhile isspace s"

definition py_rstrip :: "string \<Rightarrow> string" where
  "py_rstrip s = rev (dropWhile isspace (rev s))"

definition py_strip :: "string \<Rightarrow> string" where
  "py_strip s = py_rstrip (py_lstrip s)"

text \<open>
  \<^verbatim>\<open>s[a:b]\<close> for literal bounds \<open>0 \<le> a\<close>, \<open>0 \<le> b\<close>: Python clamps both bounds to the
  length of \<open>s\<close>, so a short string gives a shorter or empty slice and never raises.
\<close>

definition py_slice :: "string \<Rightarrow> nat \<Rightarrow> nat \<Rightarrow> string" where
  "py_slice s a b = take (b - a) (drop a s)"

text \<open>
  \<^verbatim>\<open>s[i]\<close> for a literal \<open>0 \<le> i\<close>: the one-character string at index \<open>i\<close>, and
  \<^verbatim>\<open>IndexError\<close> when \<open>i\<close> is not below the length.
\<close>

definition py_index :: "string \<Rightarrow> nat \<Rightarrow> error + string" where
  "py_index s i = (if i < length s then Inr [s ! i] else Inl IndexError)"

section \<open>The record parser\<close>

text \<open>
  A dictionary display \<^verbatim>\<open>{k1: e1, k2: e2, ...}\<close> evaluates its entries from left to
  right; the first expression that raises ends the evaluation with that exception. The
  resulting dictionary is an association list in insertion order.
\<close>

type_synonym obstacle_record = "(string \<times> string) list"

fun dict_display :: "(string \<times> (error + string)) list \<Rightarrow> error + obstacle_record" where
  "dict_display [] = Inr []"
| "dict_display ((k, e) # rest) =
     py_bind e (\<lambda>v. py_bind (dict_display rest) (\<lambda>d. Inr ((k, v) # d)))"

text \<open>\<^verbatim>\<open>line[a:b].strip()\<close> and \<^verbatim>\<open>line[i].strip()\<close>, the two forms of entry.\<close>

definition slice_strip :: "string \<Rightarrow> nat \<Rightarrow> nat \<Rightarrow> error + string" where
  "slice_strip line a b = Inr (py_strip (py_slice line a b))"

definition index_strip :: "string \<Rightarrow> nat \<Rightarrow> error + string" where
  "index_strip line i = py_bind (py_index line i) (\<lambda>c. Inr (py_strip c))"

definition parse_dof_line :: "string \<Rightarrow> error + obstacle_record" where
  "parse_dof_line line = dict_display
     [(''oas_code'', slice_strip line 0 2),
      (''obstacle_number'', slice_strip line 3 9),
      (''verification_status'', index_strip line 10),
      (''country_id'', slice_strip line 12 14),
      (''state_id'', slice_strip line 15 17),
      (''city_name'', slice_strip line 18 34),
      (''lat_deg'', slice_strip line 35 37),
      (''lat_min'', slice_strip line 38 40),
      (''lat_sec'', slice_strip line 41 46),
      (''lat_hem'', index_strip line 46),
      (''lon_deg'', slice_strip line 48 51),
      (''lon_min'', slice_strip line 52 54),
      (''lon_sec'', slice_strip line 55 60),
      (''lon_hem'', index_strip line 60),
      (''obstacle_type'', slice_strip line 62 80),
      (''quantity'', index_strip line 81),
      (''agl_height'', slice_strip line 83 88),
      (''amsl_height'', slice_strip line 89 94),
      (''lighting'', index_strip line 95),
      (''horizontal_accuracy'', index_strip line 97),
      (''vertical_accuracy'', index_strip line 99),
      (''mark_indicator'', index_strip line 101),
      (''faa_study_number'', slice_strip line 103 117),
      (''action'', index_strip line 118),
      (''julian_date'', slice_strip line 120 127)]"

section \<open>File ingestion\<close>

text \<open>
  \<^verbatim>\<open>parse_dof_file\<close> iterates over the lines of the opened file. Its model takes the
  lines as the iteration yields them (each with its trailing line feed, the last one
  possibly without). \<^verbatim>\<open>line.rstrip("\n")\<close> removes every trailing line feed.
\<close>

definition rstrip_newline :: "string \<Rightarrow> string" where
  "rstrip_newline s = rev (dropWhile (\<lambda>c. c = CHR 0x0A) (rev s))"

text \<open>
  The body of the loop up to the call of the parser: the two \<^verbatim>\<open>continue\<close> guards
  decide whether the line is skipped or handed to \<^verbatim>\<open>parse_dof_line\<close>. A string is
  false exactly when it is empty, and \<^verbatim>\<open>set(s) == {"-"}\<close> compares the set of the
  characters of \<open>s\<close>.
\<close>

datatype line_action = Skip | Parse string

definition filter_line :: "string \<Rightarrow> line_action" where
  "filter_line raw =
     (let line = rstrip_newline raw
      in if py_strip line = [] \<or> length line < 80 then Skip
         else if set (py_strip line) = {CHR ''-''} then Skip
         else Parse line)"

text \<open>
  The loop: a skipped line leaves \<open>records\<close> as it is; a parsed line appends its record;
  an exception of the parser is not caught and ends the whole call.
\<close>

fun parse_dof_file_loop ::
  "string list \<Rightarrow> obstacle_record list \<Rightarrow> error + obstacle_record list" where
  "parse_dof_file_loop [] records = Inr records"
| "parse_dof_file_loop (raw # rest) records =
     (case filter_line raw of
        Skip \<Rightarrow> parse_dof_file_loop rest records
      | Parse line \<Rightarrow>
          py_bind (parse_dof_line line)
            (\<lambda>record. parse_dof_file_loop rest (records @ [record])))"

definition parse_dof_file :: "string list \<Rightarrow> error + obstacle_record list" where
  "parse_dof_file lines = parse_dof_file_loop lines []"

section \<open>Python floats\<close>

text \<open>
  A Python \<^verbatim>\<open>float\<close> is an IEEE 754 binary64 number: a finite value (a rational
  \<open>n * 2 powi k\<close> with \<open>\<bar>n\<bar> < 2 ^ 53\<close> and \<open>- 1074 \<le> k \<le> 971\<close>), one of two zeros, one
  of two infinities, or a NaN. \<open>Fin 0\<close> is the positive zero and \<open>NegZero\<close> the negative
  one; the sign and payload of a NaN cannot be observed by this program and are not kept.
\<close>

datatype pyfloat = Fin rat | NegZero | PosInf | NegInf | NaN

text \<open>
  The binary exponent of a positive rational: the \<open>e\<close> with \<open>2 powi e \<le> a < 2 powi (e + 1)\<close>,
  computed from the bit lengths of numerator and denominator.
\<close>

definition log2floor :: "rat \<Rightarrow> int" where
  "log2floor a = (let (p, q) = quotient_of a; e = bitlen p - bitlen q
                  in if 2 powi e \<le> a then e else e - 1)"

text \<open>Rounding to the nearest integer, a tie going to the even neighbour.\<close>

definition rne :: "rat \<Rightarrow> int" where
  "rne x = (let f = \<lfloor>x\<rfloor>; d = x - of_int f
            in if d < 1 / 2 then f else if 1 / 2 < d then f + 1
               else if even f then f else f + 1)"

text \<open>
  The binary64 rounding of an exact result \<open>x\<close> (round to nearest, ties to even), which
  every arithmetic operation and the conversion from a decimal string apply: the spacing
  of the floats around \<open>x\<close> is \<open>2 powi (e - 52)\<close>, with the exponent held at \<open>- 1022\<close> in the
  subnormal range; a result that rounds to \<open>2 powi 1024\<close> or more overflows to an infinity,
  and one that rounds to zero keeps the sign of \<open>x\<close>.
\<close>

definition round64 :: "rat \<Rightarrow> pyfloat" where
  "round64 x =
     (let a = \<bar>x\<bar>;
          e = max (log2floor a) (- 1022);
          q = 2 powi (e - 52);
          y = of_int (rne (a / q)) * q
      in if x = 0 then Fin 0
         else if 2 powi 1024 \<le> y then (if x < 0 then NegInf else PosInf)
         else if y = 0 then (if x < 0 then NegZero else Fin 0)
         else Fin (if x < 0 then - y else y))"

fun is_nan :: "pyfloat \<Rightarrow> bool" where
  "is_nan NaN = True"
| "is_nan _ = False"

fun is_inf :: "pyfloat \<Rightarrow> bool" where
  "is_inf PosInf = True"
| "is_inf NegInf = True"
| "is_inf _ = False"

fun is_zero :: "pyfloat \<Rightarrow> bool" where
  "is_zero (Fin r) = (r = 0)"
| "is_zero NegZero = True"
| "is_zero _ = False"

fun sign_bit :: "pyfloat \<Rightarrow> bool" where
  "sign_bit (Fin r) = (r < 0)"
| "sign_bit NegZero = True"
| "sign_bit NegInf = True"
| "sign_bit _ = False"

fun float_val :: "pyfloat \<Rightarrow> rat" where
  "float_val (Fin r) = r"
| "float_val _ = 0"

definition signed_zero :: "bool \<Rightarrow> pyfloat" where
  "signed_zero neg = (if neg then NegZero else Fin 0)"

definition signed_inf :: "bool \<Rightarrow> pyfloat" where
  "signed_inf neg = (if neg then NegInf else PosInf)"

text \<open>
  \<^verbatim>\<open>x + y\<close>: NaN propagates, infinities of opposite sign give NaN, an exact sum of
  zero is the positive zero unless both operands are the negative zero, and every other
  sum is rounded.
\<close>

definition float_add :: "pyfloat \<Rightarrow> pyfloat \<Rightarrow> pyfloat" where
  "float_add x y =
     (if is_nan x \<or> is_nan y then NaN
      else if is_inf x then (if is_inf y \<and> sign_bit x \<noteq> sign_bit y then NaN else x)
      else if is_inf y then y
      else if float_val x + float_val y = 0
        then (if x = NegZero \<and> y = NegZero then NegZero else Fin 0)
      else round64 (float_val x + float_val y))"

text \<open>
  \<^verbatim>\<open>x / y\<close>: Python raises \<^verbatim>\<open>ZeroDivisionError\<close> when the divisor is a zero, before
  anything else; otherwise the quotient follows IEEE 754.
\<close>

definition float_truediv :: "pyfloat \<Rightarrow> pyfloat \<Rightarrow> error + pyfloat" where
  "float_truediv x y =
     (if is_zero y then Inl ZeroDivisionError
      else Inr (if is_nan x \<or> is_nan y then NaN
                else if is_inf x
                  then (if is_inf y then NaN else signed_inf (sign_bit x \<noteq> sign_bit y))
                else if is_inf y \<or> is_zero x then signed_zero (sign_bit x \<noteq> sign_bit y)
                else round64 (float_val x / float_val y)))"

text \<open>\<^verbatim>\<open>-x\<close> flips the sign, also of a zero and of an infinity.\<close>

fun float_neg :: "pyfloat \<Rightarrow> pyfloat" where
  "float_neg (Fin r) = (if r = 0 then NegZero else Fin (- r))"
| "float_neg NegZero = Fin 0"
| "float_neg PosInf = NegInf"
| "float_neg NegInf = PosInf"
| "float_neg NaN = NaN"

section \<open>The conversion \<^verbatim>\<open>float(s)\<close> of a string\<close>

text \<open>
  \<^verbatim>\<open>float(s)\<close> accepts, between optional leading and trailing whitespace, an optional
  sign followed by a decimal number (digits with an optional point and an optional
  exponent, single underscores allowed between digits) or by \<^verbatim>\<open>inf\<close>,
  \<^verbatim>\<open>infinity\<close> or \<^verbatim>\<open>nan\<close> in any letter case; everything else raises
  \<^verbatim>\<open>ValueError\<close>. The value of a decimal number is rounded correctly, so a number too
  large for a float becomes an infinity and one too small a zero.
\<close>

definition is_digit :: "char \<Rightarrow> bool" where
  "is_digit c = (48 \<le> (of_char c :: nat) \<and> (of_char c :: nat) \<le> 57)"

definition digit_val :: "char \<Rightarrow> nat" where
  "digit_val c = of_char c - 48"

definition digits_value :: "string \<Rightarrow> nat" where
  "digits_value ds = foldl (\<lambda>n c. 10 * n + digit_val c) 0 ds"

definition code_points :: "string \<Rightarrow> nat list" where
  "code_points s = map of_char s"

text \<open>
  The whitespace the conversion strips: the two non-ASCII spaces below code point 256
  are first replaced by an ASCII space, then the C whitespace characters (TAB, LF, VT, FF,
  CR, space) are removed at both ends. FS, GS, RS and US are not among them.
\<close>

definition c_isspace :: "char \<Rightarrow> bool" where
  "c_isspace c = (of_char c \<in> {9, 10, 11, 12, 13, 32 :: nat})"

definition spaces_to_ascii :: "string \<Rightarrow> string" where
  "spaces_to_ascii s = map (\<lambda>c. if of_char c \<in> {133, 160 :: nat} then CHR '' '' else c) s"

definition strip_c_spaces :: "string \<Rightarrow> string" where
  "strip_c_spaces s = rev (dropWhile c_isspace (rev (dropWhile c_isspace s)))"

text \<open>
  Underscores: one is allowed only directly after a digit and directly before a digit.
  \<open>prev\<close> is the character before the current one; \<open>None\<close> is the error.
\<close>

fun remove_underscores :: "char \<Rightarrow> string \<Rightarrow> string option" where
  "remove_underscores prev [] = (if prev = CHR ''_'' then None else Some [])"
| "remove_underscores prev (p # rest) =
     (if p = CHR ''_''
      then (if is_digit prev then remove_underscores p rest else None)
      else if prev = CHR ''_'' \<and> \<not> is_digit p then None
      else map_option ((#) p) (remove_underscores p rest))"

fun split_sign :: "string \<Rightarrow> bool \<times> string" where
  "split_sign [] = (False, [])"
| "split_sign (c # r) =
     (if c = CHR ''-'' then (True, r) else if c = CHR ''+'' then (False, r) else (False, c # r))"

text \<open>The float nearest to \<open>\<plusminus> m * 10 powi e\<close>; a zero keeps the sign written.\<close>

definition make_float :: "bool \<Rightarrow> nat \<Rightarrow> int \<Rightarrow> pyfloat" where
  "make_float neg m e =
     (if m = 0 then signed_zero neg
      else round64 ((if neg then - 1 else 1) * of_nat m * 10 powi e))"

text \<open>The ASCII lower-case code point of a character, for the match of the names.\<close>

definition ascii_lower :: "char \<Rightarrow> nat" where
  "ascii_lower c = (if 65 \<le> (of_char c :: nat) \<and> (of_char c :: nat) \<le> 90
                    then of_char c + 32 else of_char c)"

definition inf_or_nan :: "bool \<Rightarrow> string \<Rightarrow> error + pyfloat" where
  "inf_or_nan neg s =
     (let l = map ascii_lower s
      in if l = code_points ''inf'' \<or> l = code_points ''infinity'' then Inr (signed_inf neg)
         else if l = code_points ''nan'' then Inr NaN
         else Inl ValueError)"

text \<open>
  The literal after stripping: sign, integer digits \<open>ip\<close>, fraction digits \<open>fp\<close> after a
  point, and an exponent, which counts only when at least one digit follows the
  \<^verbatim>\<open>e\<close> and its sign. With no digit before the exponent the text must be one of the
  names; any character left over is an error.
\<close>

definition float_literal :: "string \<Rightarrow> error + pyfloat" where
  "float_literal s =
     (let (neg, r0) = split_sign s;
          ip = takeWhile is_digit r0;
          r1 = dropWhile is_digit r0;
          (fp, r2) = (case r1 of
                        [] \<Rightarrow> ([], r1)
                      | c # r \<Rightarrow> if c = CHR ''.''
                                 then (takeWhile is_digit r, dropWhile is_digit r)
                                 else ([], r1));
          m = digits_value (ip @ fp)
      in if ip = [] \<and> fp = [] then inf_or_nan neg r0
         else (case r2 of
                 [] \<Rightarrow> Inr (make_float neg m (- int (length fp)))
               | c # r \<Rightarrow>
                   if c = CHR ''e'' \<or> c = CHR ''E''
                   then (let (eneg, r3) = split_sign r;
                             ed = takeWhile is_digit r3;
                             x = (if eneg then - int (digits_value ed) else int (digits_value ed))
                         in if ed \<noteq> [] \<and> dropWhile is_digit r3 = []
                            then Inr (make_float neg m (x - int (length fp)))
                            else Inl ValueError)
                   else Inl ValueError))"

definition py_float :: "string \<Rightarrow> error + pyfloat" where
  "py_float s =
     (let t = strip_c_spaces (spaces_to_ascii s)
      in if t = [] then Inl ValueError
         else (case remove_underscores (CHR 0x00) t of
                 None \<Rightarrow> Inl ValueError
               | Some u \<Rightarrow> float_literal u))"

section \<open>The coordinate converter\<close>

text \<open>
  \<^verbatim>\<open>str.upper()\<close> maps every character to its full upper case, one to three
  characters, independently of its neighbours. The test of the converter depends on it
  for every character of Unicode, so the hemisphere is modelled as the list of its code
  points, and the mapping is the one of the Unicode character database (version 14.0):
  \<open>upper_special\<close> lists the characters whose upper case is more than one character,
  \<open>upper_ranges\<close> the others that change, as ranges \<open>(first, last, step, upper case of
  first)\<close> in which every \<open>step\<close>-th code point is mapped at the same distance; every
  other code point is its own upper case.
\<close>

definition upper_ranges :: "(nat \<times> nat \<times> nat \<times> nat) list" where
  "upper_ranges =
    [(97, 122, 1, 65), (181, 181, 1, 924), (224, 246, 1, 192), (248, 254, 1, 216),
     (255, 255, 1, 376), (257, 303, 2, 256), (305, 305, 1, 73), (307, 311, 2, 306),
     (314, 328, 2, 313), (331, 375, 2, 330), (378, 382, 2, 377), (383, 383, 1, 83),
     (384, 384, 1, 579), (387, 389, 2, 386), (392, 392, 1, 391), (396, 396, 1, 395),
     (402, 402, 1, 401), (405, 405, 1, 502), (409, 409, 1, 408), (410, 410, 1, 573),
     (414, 414, 1, 544), (417, 421, 2, 416), (424, 424, 1, 423), (429, 429, 1, 428),
     (432, 432, 1, 431), (436, 438, 2, 435), (441, 441, 1, 440), (445, 445, 1, 444),
     (447, 447, 1, 503), (453, 453, 1, 452), (454, 454, 1, 452), (456, 456, 1, 455),
     (457, 457, 1, 455), (459, 459, 1, 458), (460, 460, 1, 458), (462, 476, 2, 461),
     (477, 477, 1, 398), (479, 495, 2, 478), (498, 498, 1, 497), (499, 499, 1, 497),
     (501, 501, 1, 500), (505, 543, 2, 504), (547, 563, 2, 546), (572, 572, 1, 571),
     (575, 576, 1, 11390), (578, 578, 1, 577), (583, 591, 2, 582), (592, 592, 1, 11375),
     (593, 593, 1, 11373), (594, 594, 1, 11376), (595, 595, 1, 385), (596, 596, 1, 390),
     (598, 599, 1, 393), (601, 601, 1, 399), (603, 603, 1, 400), (604, 604, 1, 42923),
     (608, 608, 1, 403), (609, 609, 1, 42924), (611, 611, 1, 404), (613, 613, 1, 42893),
     (614, 614, 1, 42922), (616, 616, 1, 407), (617, 617, 1, 406), (618, 618, 1, 42926),
     (619, 619, 1, 11362), (620, 620, 1, 42925), (623, 623, 1, 412), (625, 625, 1, 11374),
     (626, 626, 1, 413), (629, 629, 1, 415), (637, 637, 1, 11364), (640, 640, 1, 422),
     (642, 642, 1, 42949), (643, 643, 1, 425), (647, 647, 1, 42929), (648, 648, 1, 430),
     (649, 649, 1, 580), (650, 651, 1, 433), (652, 652, 1, 581), (658, 658, 1, 439),
     (669, 669, 1, 42930), (670, 670, 1, 42928), (837, 837, 1, 921), (881, 883, 2, 880),
     (887, 887, 1, 886), (891, 893, 1, 1021), (940, 940, 1, 902), (941, 943, 1, 904),
     (945, 961, 1, 913), (962, 962, 1, 931), (963, 971, 1, 931), (972, 972, 1, 908),
     (973, 974, 1, 910), (976, 976, 1, 914), (977, 977, 1, 920), (981, 981, 1, 934),
     (982, 982, 1, 928), (983, 983, 1, 975), (985, 1007, 2, 984), (1008, 1008, 1, 922),
     (1009, 1009, 1, 929), (1010, 1010, 1, 1017), (1011, 1011, 1, 895), (1013, 1013, 1, 917),
     (1016, 1016, 1, 1015), (1019, 1019, 1, 1018), (1072, 1103, 1, 1040), (1104, 1119, 1, 1024),
     (1121, 1153, 2, 1120), (1163, 1215, 2, 1162), (1218, 1230, 2, 1217), (1231, 1231, 1, 1216),
     (1233, 1327, 2, 1232), (1377, 1414, 1, 1329), (4304, 4346, 1, 7312), (4349, 4351, 1, 7357),
     (5112, 5117, 1, 5104), (7296, 7296, 1, 1042), (7297, 7297, 1, 1044), (7298, 7298, 1, 1054),
     (7299, 7300, 1, 1057), (7301, 7301, 1, 1058), (7302, 7302, 1, 1066), (7303, 7303, 1, 1122),
     (7304, 7304, 1, 42570), (7545, 7545, 1, 42877), (7549, 7549, 1, 11363),
     (7566, 7566, 1, 42950), (7681, 7829, 2, 7680), (7835, 7835, 1, 7776),
     (7841, 7935, 2, 7840), (7936, 7943, 1, 7944), (7952, 7957, 1, 7960), (7968, 7975, 1, 7976),
     (7984, 7991, 1, 7992), (8000, 8005, 1, 8008), (8017, 8023, 2, 8025), (8032, 8039, 1, 8040),
     (8048, 8049, 1, 8122), (8050, 8053, 1, 8136), (8054, 8055, 1, 8154), (8056, 8057, 1, 8184),
     (8058, 8059, 1, 8170), (8060, 8061, 1, 8186), (8112, 8113, 1, 8120), (8126, 8126, 1, 921),
     (8144, 8145, 1, 8152), (8160, 8161, 1, 8168), (8165, 8165, 1, 8172), (8526, 8526, 1, 8498),
     (8560, 8575, 1, 8544), (8580, 8580, 1, 8579), (9424, 9449, 1, 9398),
     (11312, 11359, 1, 11264), (11361, 11361, 1, 11360), (11365, 11365, 1, 570),
     (11366, 11366, 1, 574), (11368, 11372, 2, 11367), (11379, 11379, 1, 11378),
     (11382, 11382, 1, 11381), (11393, 11491, 2, 11392), (11500, 11502, 2, 11499),
     (11507, 11507, 1, 11506), (11520, 11557, 1, 4256), (11559, 11559, 1, 4295),
     (11565, 11565, 1, 4301), (42561, 42605, 2, 42560), (42625, 42651, 2, 42624),
     (42787, 42799, 2, 42786), (42803, 42863, 2, 42802), (42874, 42876, 2, 42873),
     (42879, 42887, 2, 42878), (42892, 42892, 1, 42891), (42897, 42899, 2, 42896),
     (42900, 42900, 1, 42948), (42903, 42921, 2, 42902), (42933, 42947, 2, 42932),
     (42952, 42954, 2, 42951), (42961, 42961, 1, 42960), (42967, 42969, 2, 42966),
     (42998, 42998, 1, 42997), (43859, 43859, 1, 42931), (43888, 43967, 1, 5024),
     (65345, 65370, 1, 65313), (66600, 66639, 1, 66560), (66776, 66811, 1, 66736),
     (66967, 66977, 1, 66928), (66979, 66993, 1, 66940), (66995, 67001, 1, 66956),
     (67003, 67004, 1, 66964), (68800, 68850, 1, 68736), (71872, 71903, 1, 71840),
     (93792, 93823, 1, 93760), (125218, 125251, 1, 125184)]"

definition upper_special :: "(nat \<times> nat list) list" where
  "upper_special =
    [(223, [83, 83]), (329, [700, 78]), (496, [74, 780]), (912, [921, 776, 769]),
     (944, [933, 776, 769]), (1415, [1333, 1362]), (7830, [72, 817]), (7831, [84, 776]),
     (7832, [87, 778]), (7833, [89, 778]), (7834, [65, 702]), (8016, [933, 787]),
     (8018, [933, 787, 768]), (8020, [933, 787, 769]), (8022, [933, 787, 834]),
     (8064, [7944, 921]), (8065, [7945, 921]), (8066, [7946, 921]), (8067, [7947, 921]),
     (8068, [7948, 921]), (8069, [7949, 921]), (8070, [7950, 921]), (8071, [7951, 921]),
     (8072, [7944, 921]), (8073, [7945, 921]), (8074, [7946, 921]), (8075, [7947, 921]),
     (8076, [7948, 921]), (8077, [7949, 921]), (8078, [7950, 921]), (8079, [7951, 921]),
     (8080, [7976, 921]), (8081, [7977, 921]), (8082, [7978, 921]), (8083, [7979, 921]),
     (8084, [7980, 921]), (8085, [7981, 921]), (8086, [7982, 921]), (8087, [7983, 921]),
     (8088, [7976, 921]), (8089, [7977, 921]), (8090, [7978, 921]), (8091, [7979, 921]),
     (8092, [7980, 921]), (8093, [7981, 921]), (8094, [7982, 921]), (8095, [7983, 921]),
     (8096, [8040, 921]), (8097, [8041, 921]), (8098, [8042, 921]), (8099, [8043, 921]),
     (8100, [8044, 921]), (8101, [8045, 921]), (8102, [8046, 921]), (8103, [8047, 921]),
     (8104, [8040, 921]), (8105, [8041, 921]), (8106, [8042, 921]), (8107, [8043, 921]),
     (8108, [8044, 921]), (8109, [8045, 921]), (8110, [8046, 921]), (8111, [8047, 921]),
     (8114, [8122, 921]), (8115, [913, 921]), (8116, [902, 921]), (8118, [913, 834]),
     (8119, [913, 834, 921]), (8124, [913, 921]), (8130, [8138, 921]), (8131, [919, 921]),
     (8132, [905, 921]), (8134, [919, 834]), (8135, [919, 834, 921]), (8140, [919, 921]),
     (8146, [921, 776, 768]), (8147, [921, 776, 769]), (8150, [921, 834]),
     (8151, [921, 776, 834]), (8162, [933, 776, 768]), (8163, [933, 776, 769]),
     (8164, [929, 787]), (8166, [933, 834]), (8167, [933, 776, 834]), (8178, [8186, 921]),
     (8179, [937, 921]), (8180, [911, 921]), (8182, [937, 834]), (8183, [937, 834, 921]),
     (8188, [937, 921]), (64256, [70, 70]), (64257, [70, 73]), (64258, [70, 76]),
     (64259, [70, 70, 73]), (64260, [70, 70, 76]), (64261, [83, 84]), (64262, [83, 84]),
     (64275, [1348, 1350]), (64276, [1348, 1333]), (64277, [1348, 1339]), (64278, [1358, 1350]),
     (64279, [1348, 1341])]"

fun upper_in_ranges :: "nat \<Rightarrow> (nat \<times> nat \<times> nat \<times> nat) list \<Rightarrow> nat list" where
  "upper_in_ranges c [] = [c]"
| "upper_in_ranges c ((a, b, s, t) # rs) =
     (if a \<le> c \<and> c \<le> b \<and> (c - a) mod s = 0 then [t + (c - a)]
      else upper_in_ranges c rs)"

definition upper_char :: "nat \<Rightarrow> nat list" where
  "upper_char c = (case map_of upper_special c of
                     Some u \<Rightarrow> u
                   | None \<Rightarrow> upper_in_ranges c upper_ranges)"

definition py_upper :: "nat list \<Rightarrow> nat list" where
  "py_upper s = concat (map upper_char s)"

text \<open>
  \<^verbatim>\<open>dms_to_decimal_degrees\<close>: each \<^verbatim>\<open>try: x = float(s) except: x = 0.0\<close> is a case on
  the result of the conversion; the divisions and additions are evaluated from left to
  right; \<^verbatim>\<open>hemisphere.upper() in ("S", "W")\<close> compares with each of the two strings.
\<close>

definition dms_to_decimal_degrees ::
  "string \<Rightarrow> string \<Rightarrow> string \<Rightarrow> nat list \<Rightarrow> error + pyfloat" where
  "dms_to_decimal_degrees deg_str min_str sec_str hemisphere =
     (let degrees = (case py_float deg_str of Inr x \<Rightarrow> x | Inl _ \<Rightarrow> Fin 0);
          minutes = (case py_float min_str of Inr x \<Rightarrow> x | Inl _ \<Rightarrow> Fin 0);
          seconds = (case py_float sec_str of Inr x \<Rightarrow> x | Inl _ \<Rightarrow> Fin 0)
      in py_bind (float_truediv minutes (Fin 60)) (\<lambda>m60.
         py_bind (float_truediv seconds (Fin 3600)) (\<lambda>s3600.
           let decimal = float_add (float_add degrees m60) s3600
           in Inr (if py_upper hemisphere = code_points ''S''
                      \<or> py_upper hemisphere = code_points ''W''
                   then float_neg decimal else decimal))))"

section \<open>The specification's terms\<close>

text \<open>
  The column table of the DOF format as the specification gives it: field name, first
  and last column, one-indexed and inclusive.
\<close>

definition column_spec :: "(string \<times> nat \<times> nat) list" where
  "column_spec =
     [(''oas_code'', 1, 2), (''obstacle_number'', 4, 9), (''verification_status'', 11, 11),
      (''country_id'', 13, 14), (''state_id'', 16, 17), (''city_name'', 19, 34),
      (''lat_deg'', 36, 37), (''lat_min'', 39, 40), (''lat_sec'', 42, 46),
      (''lat_hem'', 47, 47), (''lon_deg'', 49, 51), (''lon_min'', 53, 54),
      (''lon_sec'', 56, 60), (''lon_hem'', 61, 61), (''obstacle_type'', 63, 80),
      (''quantity'', 82, 82), (''agl_height'', 84, 88), (''amsl_height'', 90, 94),
      (''lighting'', 96, 96), (''horizontal_accuracy'', 98, 98),
      (''vertical_accuracy'', 100, 100), (''mark_indicator'', 102, 102),
      (''faa_study_number'', 104, 117), (''action'', 119, 119), (''julian_date'', 121, 127)]"

text \<open>
  The characters of a line in columns \<open>a\<close> to \<open>b\<close>: column \<open>c\<close> is the character at index
  \<open>c - 1\<close>. It is meant for lines that have all these columns.
\<close>

definition columns :: "string \<Rightarrow> nat \<Rightarrow> nat \<Rightarrow> string" where
  "columns line a b = map (\<lambda>c. line ! (c - 1)) [a ..< Suc b]"

text \<open>The same table as zero-indexed half-open ranges, the form of a Python slice.\<close>

definition dof_slices :: "(string \<times> nat \<times> nat) list" where
  "dof_slices = map (\<lambda>(name, a, b). (name, a - 1, b)) column_spec"

text \<open>The fixed key set of an obstacle record.\<close>

definition field_names :: "string list" where
  "field_names =
     [''oas_code'', ''obstacle_number'', ''verification_status'', ''country_id'', ''state_id'',
      ''city_name'', ''lat_deg'', ''lat_min'', ''lat_sec'', ''lat_hem'', ''lon_deg'', ''lon_min'',
      ''lon_sec'', ''lon_hem'', ''obstacle_type'', ''quantity'', ''agl_height'', ''amsl_height'',
      ''lighting'', ''horizontal_accuracy'', ''vertical_accuracy'', ''mark_indicator'',
      ''faa_study_number'', ''action'', ''julian_date'']"

text \<open>A string with no whitespace at either end.\<close>

definition trimmed :: "string \<Rightarrow> bool" where
  "trimmed s = (s = [] \<or> (\<not> isspace (hd s) \<and> \<not> isspace (last s)))"

text \<open>
  The filtering policy of the ingestion: a data line is not blank, has at least 80
  characters and is not made of dashes only.
\<close>

definition blank :: "string \<Rightarrow> bool" where
  "blank s = (py_strip s = [])"

definition all_dashes :: "string \<Rightarrow> bool" where
  "all_dashes s = (s \<noteq> [] \<and> (\<forall>c \<in> set s. c = CHR ''-''))"

definition data_line :: "string \<Rightarrow> bool" where
  "data_line s = (\<not> blank s \<and> 80 \<le> length s \<and> \<not> all_dashes s)"

text \<open>The number a sub-field contributes: its value, or \<open>0.0\<close> when it does not parse.\<close>

definition parse_or_zero :: "string \<Rightarrow> pyfloat" where
  "parse_or_zero s = (case py_float s of Inr x \<Rightarrow> x | Inl _ \<Rightarrow> Fin 0)"

text \<open>A finite float (no infinity, no NaN) of magnitude at most \<open>B\<close>.\<close>

fun finite_le :: "rat \<Rightarrow> pyfloat \<Rightarrow> bool" where
  "finite_le B (Fin r) = (\<bar>r\<bar> \<le> B)"
| "finite_le B NegZero = (0 \<le> B)"
| "finite_le B _ = False"

text \<open>
  A DOF record of 127 columns, laid out by the column table: obstacle 06-000001 in
  San Diego at 32 43 03.00 N, 117 05 49.19 W.
\<close>

definition sample_line :: string where
  "sample_line = ''06-000001 O US CA SAN DIEGO        32 43 03.00N 117 05 49.19W TOWER              1 00100 00500 R 5 D M 2005AWP01234OE C 2010123''"

section \<open>Facts about strings and slices\<close>

lemma py_index_slice: "i < length s \<Longrightarrow> py_index s i = Inr (py_slice s i (Suc i))"
  by (simp add: py_index_def py_slice_def Cons_nth_drop_Suc[symmetric] take_Suc)

lemma index_strip_slice:
  "i < length s \<Longrightarrow> index_strip s i = slice_strip s i (Suc i)"
  by (simp add: index_strip_def slice_strip_def py_index_slice py_bind_def)

lemma dict_display_Inr:
  "dict_display (map (\<lambda>(k, v). (k, Inr v)) kvs) = Inr kvs"
  by (induction kvs) (auto simp: py_bind_def)

lemma py_slice_columns:
  assumes "1 \<le> a" "b \<le> length line"
  shows "py_slice line (a - 1) b = columns line a b"
  using assms
  by (auto simp del: upt_Suc simp: py_slice_def columns_def intro!: nth_equalityI)

lemma py_slice_update:
  "b \<le> i \<or> i < a \<Longrightarrow> py_slice (s[i := c]) a b = py_slice s a b"
  by (auto simp: py_slice_def intro!: nth_equalityI)

lemma length_py_slice: "length (py_slice s a b) \<le> b - a"
  by (simp add: py_slice_def)

lemma length_py_strip: "length (py_strip s) \<le> length s"
proof -
  have "length (py_strip s) \<le> length (dropWhile isspace s)"
    unfolding py_strip_def py_lstrip_def py_rstrip_def
    by (metis length_dropWhile_le length_rev)
  also have "\<dots> \<le> length s" by (rule length_dropWhile_le)
  finally show ?thesis .
qed

lemma trimmed_py_strip: "trimmed (py_strip s)"
proof (cases "py_strip s = []")
  case True
  then show ?thesis by (simp add: trimmed_def)
next
  case False
  define t where "t = dropWhile isspace s"
  define u where "u = dropWhile isspace (rev t)"
  have ps: "py_strip s = rev u"
    by (simp add: py_strip_def py_lstrip_def py_rstrip_def t_def u_def)
  with False have u: "u \<noteq> []" by simp
  then have "\<not> isspace (hd u)"
    unfolding u_def by (rule hd_dropWhile)
  then have l: "\<not> isspace (last (rev u))"
    using u by (simp add: last_rev)
  have "rev t = takeWhile isspace (rev t) @ u"
    by (simp add: u_def)
  then have "t = rev u @ rev (takeWhile isspace (rev t))"
    by (metis rev_append rev_rev_ident)
  then have ht: "hd t = hd (rev u)" and "t \<noteq> []"
    using u by (metis hd_append2 rev_is_Nil_conv, metis Nil_is_append_conv rev_is_Nil_conv)
  then have "\<not> isspace (hd t)"
    unfolding t_def using hd_dropWhile by blast
  with ht l show ?thesis by (simp add: trimmed_def ps)
qed

lemma py_strip_no_space:
  assumes "\<forall>c \<in> set s. \<not> isspace c"
  shows "py_strip s = s"
proof -
  have 1: "dropWhile isspace s = s"
    by (rule dropWhile_id) (use assms in blast)
  have 2: "dropWhile isspace (rev s) = rev s"
    by (rule dropWhile_id) (use assms in simp)
  show ?thesis by (simp add: py_strip_def py_lstrip_def py_rstrip_def 1 2)
qed

section \<open>The record parser on long and on short lines\<close>

lemma column_spec_names: "map fst column_spec = field_names"
  by (simp add: column_spec_def field_names_def)

lemma distinct_field_names: "distinct field_names"
  by (simp add: field_names_def)

lemma length_field_names: "length field_names = 25"
  by (simp add: field_names_def)

lemma column_spec_bounds:
  "(name, a, b) \<in> set column_spec \<Longrightarrow> 1 \<le> a \<and> a \<le> b \<and> b \<le> 127 \<and> (b \<le> 2 \<or> 4 \<le> a)"
  by (auto simp: column_spec_def)

text \<open>
  From 119 characters on every index of the parser is in range, and the record holds
  the stripped slices of the table; a shorter line raises \<^verbatim>\<open>IndexError\<close>.
\<close>

lemma parse_dof_line_slices:
  assumes "119 \<le> length line"
  shows "parse_dof_line line =
    Inr (map (\<lambda>(name, a, b). (name, py_strip (py_slice line a b))) dof_slices)"
proof -
  have "parse_dof_line line =
    dict_display (map (\<lambda>(k, v). (k, Inr v))
      (map (\<lambda>(name, a, b). (name, py_strip (py_slice line a b))) dof_slices))"
    using assms
    by (simp add: parse_dof_line_def index_strip_slice dof_slices_def column_spec_def
        slice_strip_def)
  then show ?thesis by (simp only: dict_display_Inr)
qed

lemma parse_dof_line_raises:
  assumes "length line < 119"
  shows "parse_dof_line line = Inl IndexError"
  using assms
  by (simp add: parse_dof_line_def index_strip_def slice_strip_def py_index_def py_bind_def)

lemmas py_strip_defs = py_strip_def py_lstrip_def py_rstrip_def isspace_def

lemma parse_sample_line:
  "parse_dof_line sample_line = Inr
    [(''oas_code'', ''06''), (''obstacle_number'', ''000001''), (''verification_status'', ''O''),
     (''country_id'', ''US''), (''state_id'', ''CA''), (''city_name'', ''SAN DIEGO''),
     (''lat_deg'', ''32''), (''lat_min'', ''43''), (''lat_sec'', ''03.00''), (''lat_hem'', ''N''),
     (''lon_deg'', ''117''), (''lon_min'', ''05''), (''lon_sec'', ''49.19''), (''lon_hem'', ''W''),
     (''obstacle_type'', ''TOWER''), (''quantity'', ''1''), (''agl_height'', ''00100''),
     (''amsl_height'', ''00500''), (''lighting'', ''R''), (''horizontal_accuracy'', ''5''),
     (''vertical_accuracy'', ''D''), (''mark_indicator'', ''M''),
     (''faa_study_number'', ''2005AWP01234OE''), (''action'', ''C''),
     (''julian_date'', ''2010123'')]"
  by (simp add: parse_dof_line_def sample_line_def index_strip_def slice_strip_def py_index_def
      py_bind_def py_slice_def py_strip_defs)

lemma length_sample_line: "length sample_line = 127"
  by (simp add: sample_line_def)

section \<open>Claims about the record parser\<close>

text \<open>
  Claim C1. For every line of at least 127 characters \<^verbatim>\<open>parse_dof_line\<close> returns, for
  each of the 25 fields of the column table, the whitespace-stripped characters of the
  line in that field's columns (one-indexed, inclusive), in the order of the table. The
  dash in column 3 belongs to no field: replacing the character in column 3 (index 2) by
  any other leaves the record unchanged.
\<close>

theorem parse_dof_line_columns:
  assumes "127 \<le> length line"
  shows "parse_dof_line line =
           Inr (map (\<lambda>(name, a, b). (name, py_strip (columns line a b))) column_spec)
         \<and> parse_dof_line (line[2 := c]) = parse_dof_line line"
proof -
  have cols: "py_slice l (a - 1) b = columns l a b"
    if "(name, a, b) \<in> set column_spec" "127 \<le> length l" for name a b l
    using column_spec_bounds[OF that(1)] that(2) by (intro py_slice_columns) auto
  have 1: "parse_dof_line l =
      Inr (map (\<lambda>(name, a, b). (name, py_strip (columns l a b))) column_spec)"
    if "127 \<le> length l" for l
  proof -
    have "parse_dof_line l =
      Inr (map (\<lambda>(name, a, b). (name, py_strip (py_slice l (a - 1) b))) column_spec)"
      using that by (simp add: parse_dof_line_slices dof_slices_def split_def o_def)
    also have "map (\<lambda>(name, a, b). (name, py_strip (py_slice l (a - 1) b))) column_spec =
        map (\<lambda>(name, a, b). (name, py_strip (columns l a b))) column_spec"
      using cols[OF _ that] by (intro map_cong) auto
    finally show ?thesis .
  qed
  have upd: "columns (line[2 := c]) a b = columns line a b"
    if "(name, a, b) \<in> set column_spec" for name a b
  proof -
    have "py_slice (line[2 := c]) (a - 1) b = py_slice line (a - 1) b"
      using column_spec_bounds[OF that] by (intro py_slice_update) auto
    then show ?thesis using cols[OF that] assms by simp
  qed
  have "map (\<lambda>(name, a, b). (name, py_strip (columns (line[2 := c]) a b))) column_spec =
        map (\<lambda>(name, a, b). (name, py_strip (columns line a b))) column_spec"
    using upd by (intro map_cong) auto
  then show ?thesis using 1[of line] 1[of "line[2 := c]"] assms by simp
qed

theorem parse_dof_line_columns_witness:
  "127 \<le> length sample_line
   \<and> parse_dof_line sample_line =
       Inr (map (\<lambda>(name, a, b). (name, py_strip (columns sample_line a b))) column_spec)
   \<and> map_of (map (\<lambda>(name, a, b). (name, py_strip (columns sample_line a b))) column_spec)
        ''city_name'' = Some ''SAN DIEGO''
   \<and> parse_dof_line (sample_line[2 := CHR ''/'']) = parse_dof_line sample_line"
proof -
  have "map_of (map (\<lambda>(name, a, b). (name, py_strip (columns sample_line a b))) column_spec)
        ''city_name'' = Some ''SAN DIEGO''"
    by (simp add: column_spec_def columns_def sample_line_def py_strip_defs)
  then show ?thesis
    using parse_dof_line_columns[of sample_line "CHR ''/''"]
    by (simp add: length_sample_line)
qed

text \<open>
  Claim C2. For every line of at least 127 characters \<^verbatim>\<open>parse_dof_line\<close> returns a
  mapping whose keys are exactly the 25 field names, each once, and every key has a
  string value (none is absent).
\<close>

theorem parse_dof_line_keys:
  assumes "127 \<le> length line"
  shows "\<exists>r. parse_dof_line line = Inr r \<and> map fst r = field_names \<and> distinct (map fst r)
           \<and> length r = 25 \<and> dom (map_of r) = set field_names
           \<and> card (dom (map_of r)) = 25 \<and> (\<forall>k \<in> set field_names. \<exists>v. map_of r k = Some v)"
proof -
  define r where "r = map (\<lambda>(name, a, b). (name, py_strip (py_slice line a b))) dof_slices"
  have p: "parse_dof_line line = Inr r"
    using assms by (simp add: parse_dof_line_slices r_def)
  have k: "map fst r = field_names"
    by (simp add: r_def dof_slices_def split_def o_def column_spec_names[symmetric])
  have d: "dom (map_of r) = set field_names"
    by (simp add: dom_map_of_conv_image_fst k[symmetric])
  have c: "card (set field_names) = 25"
    using distinct_card[OF distinct_field_names] by (simp add: length_field_names)
  have l: "length r = 25"
    using arg_cong[OF k, of length] by (simp add: length_field_names)
  have "\<forall>k \<in> set field_names. \<exists>v. map_of r k = Some v"
    using d by (metis domD)
  with p k d c l distinct_field_names show ?thesis by auto
qed

theorem parse_dof_line_keys_witness:
  "127 \<le> length sample_line
   \<and> (\<exists>r. parse_dof_line sample_line = Inr r \<and> map fst r = field_names
          \<and> dom (map_of r) = set field_names \<and> card (dom (map_of r)) = 25
          \<and> map_of r ''lat_hem'' = Some ''N'')"
proof -
  obtain r where r: "parse_dof_line sample_line = Inr r" "map fst r = field_names"
    "dom (map_of r) = set field_names" "card (dom (map_of r)) = 25"
    using parse_dof_line_keys[of sample_line] by (auto simp: length_sample_line)
  have "map_of r ''lat_hem'' = Some ''N''"
    using r(1) by (auto simp: parse_sample_line)
  with r show ?thesis by (auto simp: length_sample_line)
qed

text \<open>
  Claim C3. The claim is that \<^verbatim>\<open>parse_dof_line\<close> raises nothing on a line of at least
  80 characters. The code indexes single characters up to \<^verbatim>\<open>line[118]\<close>: the first
  80 columns of a record pass the length test of \<^verbatim>\<open>parse_dof_file\<close> and then raise
  \<^verbatim>\<open>IndexError\<close> at \<^verbatim>\<open>line[81]\<close>, which ends the whole ingestion.
\<close>

theorem parse_dof_line_80_columns_raises:
  "length (take 80 sample_line) = 80
   \<and> filter_line (take 80 sample_line @ [CHR 0x0A]) = Parse (take 80 sample_line)
   \<and> parse_dof_line (take 80 sample_line) = Inl IndexError
   \<and> parse_dof_file [take 80 sample_line @ [CHR 0x0A], sample_line @ [CHR 0x0A]]
       = Inl IndexError"
proof -
  have l: "length (take 80 sample_line) = 80"
    by (simp add: length_sample_line)
  have f: "filter_line (take 80 sample_line @ [CHR 0x0A]) = Parse (take 80 sample_line)"
    by (simp add: filter_line_def rstrip_newline_def sample_line_def py_strip_defs)
  have p: "parse_dof_line (take 80 sample_line) = Inl IndexError"
    by (rule parse_dof_line_raises) (simp add: length_sample_line)
  show ?thesis
    using l by (simp add: f p parse_dof_file_def py_bind_def)
qed

text \<open>
  Claim C10. Whenever \<^verbatim>\<open>parse_dof_line\<close> returns a record, every value in it has no
  whitespace at either end, and is no longer than the width of the field's columns in
  the column table (last column minus first column plus one).
\<close>

theorem parse_dof_line_values_trimmed:
  assumes "parse_dof_line line = Inr r" and "(k, v) \<in> set r"
  shows "trimmed v \<and> (\<exists>a b. map_of column_spec k = Some (a, b) \<and> length v \<le> b + 1 - a)"
proof -
  have len: "119 \<le> length line"
    using assms(1) parse_dof_line_raises[of line] by (cases "length line < 119") auto
  then have "r = map (\<lambda>(name, a, b). (name, py_strip (py_slice line a b))) dof_slices"
    using assms(1) by (simp add: parse_dof_line_slices)
  with assms(2) obtain a b where ab: "(k, a, b) \<in> set column_spec"
    and v: "v = py_strip (py_slice line (a - 1) b)"
    by (auto simp: dof_slices_def)
  have "distinct (map fst column_spec)"
    by (simp add: column_spec_names distinct_field_names)
  then have m: "map_of column_spec k = Some (a, b)"
    using ab by (rule map_of_is_SomeI)
  have "length v \<le> b - (a - 1)"
    unfolding v using length_py_strip length_py_slice by (rule order_trans)
  then have "length v \<le> b + 1 - a" by simp
  with m show ?thesis by (simp add: v trimmed_py_strip)
qed

theorem parse_dof_line_values_trimmed_witness:
  "(\<exists>r. parse_dof_line sample_line = Inr r \<and> (''city_name'', ''SAN DIEGO'') \<in> set r)
   \<and> trimmed ''SAN DIEGO''
   \<and> map_of column_spec ''city_name'' = Some (19, 34) \<and> length ''SAN DIEGO'' \<le> 34 + 1 - 19"
proof -
  have m: "(''city_name'', ''SAN DIEGO'') \<in> set
    [(''oas_code'', ''06''), (''obstacle_number'', ''000001''), (''verification_status'', ''O''),
     (''country_id'', ''US''), (''state_id'', ''CA''), (''city_name'', ''SAN DIEGO''),
     (''lat_deg'', ''32''), (''lat_min'', ''43''), (''lat_sec'', ''03.00''), (''lat_hem'', ''N''),
     (''lon_deg'', ''117''), (''lon_min'', ''05''), (''lon_sec'', ''49.19''), (''lon_hem'', ''W''),
     (''obstacle_type'', ''TOWER''), (''quantity'', ''1''), (''agl_height'', ''00100''),
     (''amsl_height'', ''00500''), (''lighting'', ''R''), (''horizontal_accuracy'', ''5''),
     (''vertical_accuracy'', ''D''), (''mark_indicator'', ''M''),
     (''faa_study_number'', ''2005AWP01234OE''), (''action'', ''C''),
     (''julian_date'', ''2010123'')]"
    by simp
  have c: "map_of column_spec ''city_name'' = Some (19, 34)"
    by (simp add: column_spec_def)
  show ?thesis
    using parse_dof_line_values_trimmed[OF parse_sample_line m] c
    by (simp add: parse_sample_line)
qed

section \<open>Claims about file ingestion\<close>

lemma all_dashes_skipped:
  assumes "all_dashes s"
  shows "set (py_strip s) = {CHR ''-''}"
proof -
  have ne: "s \<noteq> []" and all: "\<And>c. c \<in> set s \<Longrightarrow> c = CHR ''-''"
    using assms unfolding all_dashes_def by blast+
  have d: "\<not> isspace (CHR ''-'')" by (simp add: isspace_def)
  have "\<forall>c \<in> set s. \<not> isspace c"
  proof
    fix c assume "c \<in> set s"
    then have "c = CHR ''-''" by (rule all)
    with d show "\<not> isspace c" by simp
  qed
  then have "py_strip s = s" by (rule py_strip_no_space)
  moreover have "set s = {CHR ''-''}"
  proof
    show "set s \<subseteq> {CHR ''-''}" using all by blast
    have "hd s \<in> set s" using ne by simp
    then have "CHR ''-'' \<in> set s" using all by metis
    then show "{CHR ''-''} \<subseteq> set s" by simp
  qed
  ultimately show ?thesis by (simp only:)
qed

lemma filter_line_cases:
  "filter_line raw =
     (if blank (rstrip_newline raw) \<or> length (rstrip_newline raw) < 80 then Skip
      else if set (py_strip (rstrip_newline raw)) = {CHR ''-''} then Skip
      else Parse (rstrip_newline raw))"
  by (simp only: filter_line_def Let_def blank_def)

lemma filter_line_skip1:
  "blank (rstrip_newline raw) \<or> length (rstrip_newline raw) < 80 \<Longrightarrow> filter_line raw = Skip"
  by (simp only: filter_line_cases if_True)

lemma filter_line_skip2:
  "set (py_strip (rstrip_newline raw)) = {CHR ''-''} \<Longrightarrow> filter_line raw = Skip"
  by (simp only: filter_line_cases if_True if_cancel simp_thms)

lemma filter_line_parse:
  "\<not> (blank (rstrip_newline raw) \<or> length (rstrip_newline raw) < 80) \<Longrightarrow>
   set (py_strip (rstrip_newline raw)) \<noteq> {CHR ''-''} \<Longrightarrow>
   filter_line raw = Parse (rstrip_newline raw)"
  by (simp only: filter_line_cases if_False)

lemma filter_line_policy:
  "(\<forall>line. filter_line raw = Parse line \<longrightarrow> line = rstrip_newline raw \<and> data_line line)
   \<and> (\<not> data_line (rstrip_newline raw) \<longrightarrow> filter_line raw = Skip)"
proof -
  define line where "line = rstrip_newline raw"
  have skip: "filter_line raw = Skip" if n: "\<not> data_line line"
  proof (cases "blank line \<or> length line < 80")
    case True
    then show ?thesis unfolding line_def by (rule filter_line_skip1)
  next
    case False
    with n have "all_dashes line" by (simp add: data_line_def)
    then have "set (py_strip line) = {CHR ''-''}" by (rule all_dashes_skipped)
    then show ?thesis unfolding line_def by (rule filter_line_skip2)
  qed
  have parse: "l = line \<and> data_line line" if p: "filter_line raw = Parse l" for l
  proof -
    have d: "data_line line"
    proof (rule ccontr)
      assume "\<not> data_line line"
      then have "filter_line raw = Skip" by (rule skip)
      with p show False by simp
    qed
    then have "\<not> (blank line \<or> length line < 80)" by (simp add: data_line_def)
    moreover have "set (py_strip line) \<noteq> {CHR ''-''}"
    proof
      assume "set (py_strip line) = {CHR ''-''}"
      then have "filter_line raw = Skip" unfolding line_def by (rule filter_line_skip2)
      with p show False by simp
    qed
    ultimately have "filter_line raw = Parse line"
      unfolding line_def by (rule filter_line_parse)
    with p d show ?thesis by simp
  qed
  show ?thesis
  proof (intro conjI allI impI)
    fix l assume "filter_line raw = Parse l"
    then show "l = rstrip_newline raw" "data_line l"
      using parse by (simp_all add: line_def)
  next
    assume n: "\<not> data_line (rstrip_newline raw)"
    then show "filter_line raw = Skip"
      using skip by (simp add: line_def)
  qed
qed

lemma filter_line_Parse:
  "filter_line raw = Parse l \<Longrightarrow> l = rstrip_newline raw \<and> data_line l"
  by (metis filter_line_policy)

lemma filter_line_Skip:
  "\<not> data_line (rstrip_newline raw) \<Longrightarrow> filter_line raw = Skip"
  by (metis filter_line_policy)

lemma parse_dof_file_loop_filter:
  "parse_dof_file_loop lines records =
   parse_dof_file_loop (filter (\<lambda>raw. data_line (rstrip_newline raw)) lines) records"
proof (induction lines arbitrary: records)
  case Nil
  show ?case by simp
next
  case (Cons raw rest)
  let ?keep = "filter (\<lambda>raw. data_line (rstrip_newline raw))"
  show ?case
  proof (cases "filter_line raw")
    case Skip
    have "parse_dof_file_loop (raw # rest) records = parse_dof_file_loop rest records"
      by (simp add: Skip)
    also have "\<dots> = parse_dof_file_loop (?keep rest) records"
      by (rule Cons.IH)
    also have "\<dots> = parse_dof_file_loop (?keep (raw # rest)) records"
      by (cases "data_line (rstrip_newline raw)") (simp_all add: Skip)
    finally show ?thesis .
  next
    case (Parse l)
    then have k: "data_line (rstrip_newline raw)"
      using filter_line_Parse by blast
    have "parse_dof_file_loop (raw # rest) records =
        py_bind (parse_dof_line l) (\<lambda>record. parse_dof_file_loop rest (records @ [record]))"
      by (simp add: Parse)
    also have "\<dots> = py_bind (parse_dof_line l)
        (\<lambda>record. parse_dof_file_loop (?keep rest) (records @ [record]))"
      by (subst Cons.IH) (rule refl)
    also have "\<dots> = parse_dof_file_loop (raw # ?keep rest) records"
      by (simp add: Parse)
    also have "\<dots> = parse_dof_file_loop (?keep (raw # rest)) records"
      by (simp only: filter.simps k if_True)
    finally show ?thesis .
  qed
qed

text \<open>
  Claim C9. Whenever the loop of \<^verbatim>\<open>parse_dof_file\<close> hands a line to the record
  parser, that line is the input line without its trailing line feed and satisfies the
  filtering policy: it is not blank, has at least 80 characters and is not made of dashes
  only. A line that fails the policy is skipped: the parser is not called, the records
  collected so far are kept, and the loop goes on with the lines that follow. So the
  result for a file is the result for the file without the lines that fail the policy.
\<close>

theorem parse_dof_file_filter:
  "(\<forall>line. filter_line raw = Parse line \<longrightarrow> line = rstrip_newline raw \<and> data_line line)
   \<and> (\<not> data_line (rstrip_newline raw) \<longrightarrow>
        filter_line raw = Skip
        \<and> parse_dof_file_loop (raw # rest) records = parse_dof_file_loop rest records)
   \<and> parse_dof_file lines =
       parse_dof_file (filter (\<lambda>raw. data_line (rstrip_newline raw)) lines)"
proof (intro conjI allI impI)
  fix l assume "filter_line raw = Parse l"
  then show "l = rstrip_newline raw" "data_line l"
    by (simp_all add: filter_line_Parse)
next
  assume "\<not> data_line (rstrip_newline raw)"
  then show s: "filter_line raw = Skip"
    by (rule filter_line_Skip)
  show "parse_dof_file_loop (raw # rest) records = parse_dof_file_loop rest records"
    by (simp add: s)
next
  show "parse_dof_file lines =
       parse_dof_file (filter (\<lambda>raw. data_line (rstrip_newline raw)) lines)"
    unfolding parse_dof_file_def by (rule parse_dof_file_loop_filter)
qed

theorem parse_dof_file_filter_witness:
  "filter_line (sample_line @ [CHR 0x0A]) = Parse sample_line
   \<and> data_line sample_line
   \<and> \<not> data_line (rstrip_newline (replicate 127 (CHR ''-'') @ [CHR 0x0A]))
   \<and> filter_line (replicate 127 (CHR ''-'') @ [CHR 0x0A]) = Skip
   \<and> parse_dof_file_loop [replicate 127 (CHR ''-'') @ [CHR 0x0A], sample_line @ [CHR 0x0A]] []
       = parse_dof_file_loop [sample_line @ [CHR 0x0A]] []"
proof -
  have r: "rstrip_newline (sample_line @ [CHR 0x0A]) = sample_line"
    by (simp add: rstrip_newline_def sample_line_def)
  have f: "filter_line (sample_line @ [CHR 0x0A]) = Parse sample_line"
    unfolding filter_line_def r
    by (simp add: sample_line_def py_strip_defs)
  have d: "\<not> data_line (rstrip_newline (replicate 127 (CHR ''-'') @ [CHR 0x0A]))"
    by (simp add: rstrip_newline_def data_line_def all_dashes_def)
  note t1 = parse_dof_file_filter[of "sample_line @ [CHR 0x0A]" "[]" "[]" "[]",
      THEN conjunct1, rule_format, OF f]
  note t2 = parse_dof_file_filter[of "replicate 127 (CHR ''-'') @ [CHR 0x0A]"
      "[sample_line @ [CHR 0x0A]]" "[]" "[]", THEN conjunct2, THEN conjunct1, rule_format, OF d]
  from t1 have 2: "data_line sample_line" by (rule conjunct2)
  from t2 have 4: "filter_line (replicate 127 (CHR ''-'') @ [CHR 0x0A]) = Skip"
    by (rule conjunct1)
  from t2 have 5: "parse_dof_file_loop
      [replicate 127 (CHR ''-'') @ [CHR 0x0A], sample_line @ [CHR 0x0A]] []
       = parse_dof_file_loop [sample_line @ [CHR 0x0A]] []"
    by (rule conjunct2)
  from f 2 d 4 5 show ?thesis by (intro conjI)
qed

section \<open>Facts about rounding\<close>

lemma log2floor_bounds:
  assumes "0 < a"
  shows "2 powi (log2floor a) \<le> a \<and> a < 2 powi (log2floor a + 1)"
proof -
  obtain p q where pq: "quotient_of a = (p, q)" by force
  have q: "0 < q" using quotient_of_denom_pos[OF pq] .
  have a: "a = of_int p / of_int q" using quotient_of_div[OF pq] .
  have p: "0 < p" using assms q by (simp add: a zero_less_divide_iff)
  define bp where "bp = bitlen p"
  define bq where "bq = bitlen q"
  have bp: "(2::int) ^ nat (bp - 1) \<le> p" "p < 2 ^ nat bp"
    using bitlen_bounds[OF p] by (simp_all add: bp_def)
  have bq: "(2::int) ^ nat (bq - 1) \<le> q" "q < 2 ^ nat bq"
    using bitlen_bounds[OF q] by (simp_all add: bq_def)
  have bp1: "1 \<le> bp" using p by (simp add: bp_def bitlen_alt_def)
  have bq1: "1 \<le> bq" using q by (simp add: bq_def bitlen_alt_def)
  have P1: "(2::rat) powi (bp - 1) \<le> of_int p"
  proof -
    have "(of_int ((2::int) ^ nat (bp - 1)) :: rat) \<le> of_int p"
      using bp(1) by (simp only: of_int_le_iff)
    then show ?thesis using bp1 by (simp add: power_int_def)
  qed
  have P2: "of_int p < (2::rat) powi bp"
  proof -
    have "(of_int p :: rat) < of_int ((2::int) ^ nat bp)"
      using bp(2) by (simp only: of_int_less_iff)
    then show ?thesis using bp1 by (simp add: power_int_def)
  qed
  have Q1: "(2::rat) powi (bq - 1) \<le> of_int q"
  proof -
    have "(of_int ((2::int) ^ nat (bq - 1)) :: rat) \<le> of_int q"
      using bq(1) by (simp only: of_int_le_iff)
    then show ?thesis using bq1 by (simp add: power_int_def)
  qed
  have Q2: "of_int q < (2::rat) powi bq"
  proof -
    have "(of_int q :: rat) < of_int ((2::int) ^ nat bq)"
      using bq(2) by (simp only: of_int_less_iff)
    then show ?thesis using bq1 by (simp add: power_int_def)
  qed
  have qpos: "(0::rat) < of_int q" using q by simp
  have lo: "(2::rat) powi (bp - bq - 1) \<le> a"
  proof -
    have "(2::rat) powi (bp - bq - 1) * of_int q \<le> 2 powi (bp - bq - 1) * 2 powi bq"
      using Q2 by (intro mult_left_mono) auto
    also have "\<dots> = 2 powi (bp - 1)"
      by (simp flip: power_int_add)
    also have "\<dots> \<le> of_int p" by (rule P1)
    finally show ?thesis using qpos by (simp add: a pos_le_divide_eq)
  qed
  have hi: "a < (2::rat) powi (bp - bq + 1)"
  proof -
    have "of_int p < (2::rat) powi bp" by (rule P2)
    also have "\<dots> = 2 powi (bp - bq + 1) * 2 powi (bq - 1)"
      by (simp flip: power_int_add)
    also have "\<dots> \<le> 2 powi (bp - bq + 1) * of_int q"
      using Q1 by (intro mult_left_mono) auto
    finally show ?thesis using qpos by (simp add: a pos_divide_less_eq)
  qed
  have l: "log2floor a = (if 2 powi (bp - bq) \<le> a then bp - bq else bp - bq - 1)"
    by (simp add: log2floor_def pq bp_def bq_def Let_def)
  show ?thesis
  proof (cases "2 powi (bp - bq) \<le> a")
    case True
    then show ?thesis using hi by (simp add: l)
  next
    case False
    then show ?thesis using lo by (simp add: l)
  qed
qed

lemma pow2_less_imp_less:
  assumes "(2::rat) powi m < 2 powi n"
  shows "m < n"
proof (rule ccontr)
  assume "\<not> m < n"
  then have "(2::rat) powi n \<le> 2 powi m"
    by (intro power_int_increasing) auto
  with assms show False by simp
qed

lemma pow2_le_imp_le:
  assumes "(2::rat) powi m \<le> 2 powi n"
  shows "m \<le> n"
proof (rule ccontr)
  assume "\<not> m \<le> n"
  then have "(2::rat) powi n < 2 powi m"
    by (intro power_int_strict_increasing) auto
  with assms show False by simp
qed

lemma log2floor_unique:
  assumes "2 powi e \<le> a" "a < 2 powi (e + 1)"
  shows "log2floor a = e"
proof -
  have a: "0 < a" using assms(1) by (rule less_le_trans[rotated]) simp
  note b = log2floor_bounds[OF a]
  have "(2::rat) powi e < 2 powi (log2floor a + 1)"
    using assms(1) b by linarith
  then have 1: "e < log2floor a + 1" by (rule pow2_less_imp_less)
  have "(2::rat) powi (log2floor a) < 2 powi (e + 1)"
    using assms(2) b by linarith
  then have 2: "log2floor a < e + 1" by (rule pow2_less_imp_less)
  from 1 2 show ?thesis by simp
qed

lemma rne_of_int [simp]: "rne (of_int n) = n"
  by (simp add: rne_def)

lemma rne_le: "x \<le> of_int n \<Longrightarrow> rne x \<le> n"
proof -
  assume x: "x \<le> of_int n"
  have f: "\<lfloor>x\<rfloor> \<le> n" using x by (simp add: floor_le_iff)
  show ?thesis
  proof (cases "\<lfloor>x\<rfloor> = n")
    case True
    then have "x = of_int n" using x by (metis of_int_floor_le order_antisym)
    then show ?thesis by simp
  next
    case False
    with f have "\<lfloor>x\<rfloor> + 1 \<le> n" by simp
    then show ?thesis by (simp add: rne_def Let_def)
  qed
qed

lemma rne_ge: "of_int n \<le> x \<Longrightarrow> n \<le> rne x"
proof -
  assume "of_int n \<le> x"
  then have "n \<le> \<lfloor>x\<rfloor>" by (simp add: le_floor_iff)
  then show ?thesis by (simp add: rne_def Let_def)
qed

lemma rne_nearest:
  assumes "\<bar>x - of_int n\<bar> < 1 / 2"
  shows "rne x = n"
proof -
  have 1: "of_int n - 1 / 2 < x" and 2: "x < of_int n + 1 / 2"
    using assms by linarith+
  show ?thesis
  proof (cases "of_int n \<le> x")
    case True
    then have "\<lfloor>x\<rfloor> = n" using 2 by (intro floor_unique) linarith+
    then show ?thesis using 2 by (simp add: rne_def Let_def)
  next
    case False
    then have f: "\<lfloor>x\<rfloor> = n - 1" using 1 by (intro floor_unique; simp; linarith)
    have "x - of_int (n - 1) = x - of_int n + 1" by simp
    then have "1 / 2 < x - of_int (n - 1)" using 1 by linarith
    then show ?thesis by (simp add: rne_def Let_def f)
  qed
qed

text \<open>
  The rounding of a positive number in the normal range, given its exponent \<open>e\<close> and
  the nearest multiple \<open>n\<close> of the spacing.
\<close>

lemma round64_pos:
  assumes "2 powi e \<le> x" "x < 2 powi (e + 1)" "- 1022 \<le> e"
    and "y = of_int (rne (x / 2 powi (e - 52))) * 2 powi (e - 52)"
    and "y < 2 powi 1024"
  shows "round64 x = Fin y"
proof -
  have x: "0 < x" using assms(1) by (rule less_le_trans[rotated]) simp
  have l: "log2floor x = e" using assms(1,2) by (rule log2floor_unique)
  have m: "max e (- 1022) = e" using assms(3) by simp
  have "(1::rat) \<le> 2 powi 52" by simp
  also have "\<dots> = 2 powi e / 2 powi (e - 52)"
    by (simp add: power_int_diff)
  also have "\<dots> \<le> x / 2 powi (e - 52)"
    using assms(1) by (simp add: divide_right_mono)
  finally have "1 \<le> rne (x / 2 powi (e - 52))"
    by (intro rne_ge) simp
  then have "0 < y" by (simp add: assms(4))
  then show ?thesis
    using x assms(5) by (simp add: round64_def l m Let_def assms(4))
qed

lemma round64_near:
  assumes "2 powi e \<le> x" "x < 2 powi (e + 1)" "- 1022 \<le> e"
    and "\<bar>x / 2 powi (e - 52) - of_int n\<bar> < 1 / 2"
    and "y = of_int n * 2 powi (e - 52)"
    and "y < 2 powi 1024"
  shows "round64 x = Fin y"
  using assms(1,2,3) _ assms(6)
  by (rule round64_pos) (simp add: assms(5) rne_nearest[OF assms(4)])

text \<open>A result of magnitude at most \<open>2 powi k\<close> rounds to a finite float within that bound.\<close>

lemma round64_bounded:
  assumes "\<bar>x\<bar> \<le> 2 powi k" "- 1022 \<le> k" "k \<le> 1023"
  shows "finite_le (2 powi k) (round64 x)"
proof (cases "x = 0")
  case True
  then show ?thesis by (simp add: round64_def)
next
  case False
  define a where "a = \<bar>x\<bar>"
  define e where "e = max (log2floor a) (- 1022)"
  define q :: rat where "q = 2 powi (e - 52)"
  define y where "y = of_int (rne (a / q)) * q"
  have a: "0 < a" using False by (simp add: a_def)
  have q: "0 < q" by (simp add: q_def)
  have "(2::rat) powi (log2floor a) \<le> 2 powi k"
    using log2floor_bounds[OF a] assms(1) by (simp add: a_def)
  then have "log2floor a \<le> k" by (rule pow2_le_imp_le)
  then have ek: "e \<le> k" using assms(2) by (simp add: e_def)
  define N :: int where "N = 2 ^ nat (k - e + 52)"
  have N: "of_int N * q = 2 powi k"
  proof -
    have "(of_int N :: rat) = 2 powi (k - e + 52)"
      using ek by (simp add: N_def power_int_def)
    then show ?thesis by (simp add: q_def flip: power_int_add)
  qed
  have "a / q \<le> of_int N"
    using assms(1) q N by (simp add: a_def pos_divide_le_eq)
  then have "rne (a / q) \<le> N" by (rule rne_le)
  then have "y \<le> of_int N * q"
    unfolding y_def using q by (intro mult_right_mono) auto
  then have yk: "y \<le> 2 powi k" by (simp add: N)
  have "0 \<le> a / q" using a q by simp
  then have "0 \<le> rne (a / q)" by (intro rne_ge) simp
  then have y0: "0 \<le> y" using q by (simp add: y_def)
  have "(2::rat) powi k < 2 powi 1024"
    using assms(3) by (intro power_int_strict_increasing) auto
  with yk have y1: "\<not> 2 powi 1024 \<le> y" by simp
  have r: "round64 x = (if y = 0 then (if x < 0 then NegZero else Fin 0)
                        else Fin (if x < 0 then - y else y))"
    using False y1
    by (simp add: round64_def Let_def a_def[symmetric] e_def[symmetric] q_def[symmetric]
        y_def[symmetric])
  show ?thesis using yk y0 by (auto simp: r)
qed

text \<open>An exact result of \<open>2 powi 1024\<close> or more overflows.\<close>

lemma round64_overflow:
  assumes "2 powi 1024 \<le> x"
  shows "round64 x = PosInf"
proof -
  have x: "0 < x" using assms by (rule less_le_trans[rotated]) simp
  define e where "e = log2floor x"
  have b: "2 powi e \<le> x" "x < 2 powi (e + 1)"
    using log2floor_bounds[OF x] by (simp_all add: e_def)
  have "(2::rat) powi 1024 < 2 powi (e + 1)" using assms b(2) by linarith
  then have "1024 < e + 1" by (rule pow2_less_imp_less)
  then have e: "1024 \<le> e" by simp
  then have m: "max e (- 1022) = e" by simp
  define q :: rat where "q = 2 powi (e - 52)"
  have q: "0 < q" by (simp add: q_def)
  have "(of_int (2 ^ 52) :: rat) = 2 powi e / q"
    by (simp add: q_def power_int_diff)
  also have "\<dots> \<le> x / q" using b(1) q by (simp add: divide_right_mono)
  finally have "2 ^ 52 \<le> rne (x / q)" by (rule rne_ge)
  then have "(of_int (2 ^ 52) :: rat) \<le> of_int (rne (x / q))"
    by (simp only: of_int_le_iff)
  then have "(of_int (2 ^ 52) :: rat) * q \<le> of_int (rne (x / q)) * q"
    using q by (intro mult_right_mono) simp_all
  moreover have "(of_int (2 ^ 52) :: rat) * q = 2 powi e"
    by (simp add: q_def power_int_diff)
  moreover have "(2::rat) powi 1024 \<le> 2 powi e"
    using e by (intro power_int_increasing) auto
  ultimately have "2 powi 1024 \<le> of_int (rne (x / q)) * q" by linarith
  then show ?thesis
    using x by (simp add: round64_def Let_def e_def[symmetric] m q_def[symmetric])
qed

section \<open>Facts about the converter\<close>

lemma finite_le_mono: "finite_le B x \<Longrightarrow> B \<le> C \<Longrightarrow> finite_le C x"
  by (cases x) auto

lemma finite_le_neg: "finite_le B x \<Longrightarrow> finite_le B (float_neg x)"
  by (cases x) auto

lemma finite_le_truediv:
  assumes "finite_le (2 powi k) x" "1 \<le> c" "- 1022 \<le> k" "k \<le> 1023"
  shows "\<exists>q. float_truediv x (Fin c) = Inr q \<and> finite_le (2 powi k) q"
proof (cases x)
  case (Fin r)
  show ?thesis
  proof (cases "r = 0")
    case True
    then show ?thesis using assms(2) by (simp add: Fin float_truediv_def signed_zero_def)
  next
    case False
    have "\<bar>r / c\<bar> \<le> \<bar>r\<bar>"
      using assms(2) by (simp add: divide_le_eq mult_le_cancel_left1)
    also have "\<dots> \<le> 2 powi k" using assms(1) Fin by simp
    finally have "finite_le (2 powi k) (round64 (r / c))"
      using assms(3,4) by (rule round64_bounded)
    then show ?thesis using False assms(2) by (simp add: Fin float_truediv_def)
  qed
next
  case NegZero
  then show ?thesis using assms(2) by (simp add: float_truediv_def signed_zero_def)
qed (use assms(1) in auto)

lemma finite_le_add:
  assumes "finite_le (2 powi k) x" "finite_le (2 powi k) y" "- 1023 \<le> k" "k \<le> 1022"
  shows "finite_le (2 powi (k + 1)) (float_add x y)"
proof -
  have fx: "\<not> is_nan x" "\<not> is_inf x" "\<bar>float_val x\<bar> \<le> 2 powi k"
    using assms(1) by (cases x; simp)+
  have fy: "\<not> is_nan y" "\<not> is_inf y" "\<bar>float_val y\<bar> \<le> 2 powi k"
    using assms(2) by (cases y; simp)+
  have "\<bar>float_val x + float_val y\<bar> \<le> 2 powi k + 2 powi k"
    using fx(3) fy(3) by linarith
  also have "\<dots> = 2 powi (k + 1)" by (simp add: power_int_add)
  finally have "finite_le (2 powi (k + 1)) (round64 (float_val x + float_val y))"
    using assms(3,4) by (intro round64_bounded) auto
  then show ?thesis using fx fy by (simp add: float_add_def)
qed

lemma finite_le_parse_or_zero:
  assumes "\<forall>x. py_float s = Inr x \<longrightarrow> finite_le B x" "0 \<le> B"
  shows "finite_le B (parse_or_zero s)"
  using assms by (cases "py_float s") (auto simp: parse_or_zero_def)

text \<open>
  The upper case of a string is \<^verbatim>\<open>"S"\<close> or \<^verbatim>\<open>"W"\<close> for exactly five strings:
  the four letters and the long s.
\<close>

lemma upper_in_ranges_single:
  "upper_in_ranges c rs = [x] \<Longrightarrow>
     c = x \<or> (\<exists>(a, b, s, t) \<in> set rs. a \<le> c \<and> c \<le> b \<and> x = t + (c - a))"
  by (induction c rs rule: upper_in_ranges.induct) (auto split: if_splits)

lemma length_upper_in_ranges: "length (upper_in_ranges c rs) = 1"
  by (induction c rs rule: upper_in_ranges.induct) auto

lemma upper_special_long: "list_all (\<lambda>(k, u). 2 \<le> length u) upper_special"
  by (simp add: upper_special_def)

lemma upper_ranges_S:
  "list_all (\<lambda>(a, b, s, t). 83 < t \<or> t + (b - a) < 83 \<or> (a = 97 \<and> t = 65) \<or> (a = 383 \<and> b = 383))
     upper_ranges"
  by (simp add: upper_ranges_def)

lemma upper_ranges_W:
  "list_all (\<lambda>(a, b, s, t). 87 < t \<or> t + (b - a) < 87 \<or> (a = 97 \<and> t = 65)) upper_ranges"
  by (simp add: upper_ranges_def)

lemma upper_char_values:
  "upper_char 83 = [83]" "upper_char 115 = [83]" "upper_char 383 = [83]"
  "upper_char 87 = [87]" "upper_char 119 = [87]"
  by (simp_all add: upper_char_def upper_special_def upper_ranges_def)

lemma upper_char_samples:
  "upper_char 97 = [65]" "upper_char 181 = [924]" "upper_char 223 = [83, 83]" "upper_char 255
  = [376]" "upper_char 305 = [73]" "upper_char 329 = [700, 78]" "upper_char 383 = [83]"
  "upper_char 962 = [931]" "upper_char 8064 = [7944, 921]" "upper_char 64261 = [83, 84]"
  "upper_char 66600 = [66560]" "upper_char 125251 = [125217]" "upper_char 48 = [48]"
  "upper_char 304 = [304]"
  by (simp_all add: upper_char_def upper_special_def upper_ranges_def)

lemma length_upper_char: "1 \<le> length (upper_char c)"
proof (cases "map_of upper_special c")
  case None
  then show ?thesis by (simp add: upper_char_def length_upper_in_ranges)
next
  case (Some u)
  then have "(c, u) \<in> set upper_special" by (rule map_of_SomeD)
  then have "2 \<le> length u"
    using upper_special_long by (auto simp: list_all_iff)
  then show ?thesis by (simp add: upper_char_def Some)
qed

lemma upper_char_single_range:
  assumes "upper_char c = [x]"
  shows "c = x \<or> (\<exists>(a, b, s, t) \<in> set upper_ranges. a \<le> c \<and> c \<le> b \<and> x = t + (c - a))"
proof (cases "map_of upper_special c")
  case None
  then have "upper_in_ranges c upper_ranges = [x]"
    using assms by (simp add: upper_char_def)
  then show ?thesis by (rule upper_in_ranges_single)
next
  case (Some u)
  then have "(c, u) \<in> set upper_special" by (rule map_of_SomeD)
  then have "2 \<le> length u"
    using upper_special_long by (auto simp: list_all_iff)
  then show ?thesis using assms by (simp add: upper_char_def Some)
qed

lemma upper_char_S: "upper_char c = [83] \<longleftrightarrow> c = 83 \<or> c = 115 \<or> c = 383"
proof
  assume "upper_char c = [83]"
  then consider "c = 83"
    | a b s t where "(a, b, s, t) \<in> set upper_ranges" "a \<le> c" "c \<le> b" "83 = t + (c - a)"
    using upper_char_single_range by blast
  then show "c = 83 \<or> c = 115 \<or> c = 383"
  proof cases
    case 1
    then show ?thesis by simp
  next
    case 2
    then have "83 < t \<or> t + (b - a) < 83 \<or> (a = 97 \<and> t = 65) \<or> (a = 383 \<and> b = 383)"
      using upper_ranges_S by (auto simp: list_all_iff)
    with 2(2,3,4) show ?thesis by auto
  qed
next
  assume "c = 83 \<or> c = 115 \<or> c = 383"
  then show "upper_char c = [83]" by (auto simp: upper_char_values)
qed

lemma upper_char_W: "upper_char c = [87] \<longleftrightarrow> c = 87 \<or> c = 119"
proof
  assume "upper_char c = [87]"
  then consider "c = 87"
    | a b s t where "(a, b, s, t) \<in> set upper_ranges" "a \<le> c" "c \<le> b" "87 = t + (c - a)"
    using upper_char_single_range by blast
  then show "c = 87 \<or> c = 119"
  proof cases
    case 1
    then show ?thesis by simp
  next
    case 2
    then have "87 < t \<or> t + (b - a) < 87 \<or> (a = 97 \<and> t = 65)"
      using upper_ranges_W by (auto simp: list_all_iff)
    with 2(2,3,4) show ?thesis by auto
  qed
next
  assume "c = 87 \<or> c = 119"
  then show "upper_char c = [87]" by (auto simp: upper_char_values)
qed

lemma py_upper_single:
  assumes "length u = 1"
  shows "py_upper h = u \<longleftrightarrow> (\<exists>c. h = [c] \<and> upper_char c = u)"
proof (cases h)
  case Nil
  then show ?thesis using assms by (auto simp: py_upper_def)
next
  case (Cons c r)
  show ?thesis
  proof (cases r)
    case Nil
    then show ?thesis using Cons by (simp add: py_upper_def)
  next
    case (Cons d r')
    have "2 \<le> length (py_upper h)"
      using length_upper_char[of c] length_upper_char[of d]
      by (simp add: py_upper_def \<open>h = c # r\<close> Cons)
    then show ?thesis using assms \<open>h = c # r\<close> Cons by auto
  qed
qed

lemma hemisphere_negates:
  "(py_upper h = code_points ''S'' \<or> py_upper h = code_points ''W'')
     \<longleftrightarrow> h \<in> {code_points ''S'', code_points ''s'', code_points ''W'', code_points ''w'',
              [383]}"
proof -
  have "py_upper h = [83] \<longleftrightarrow> h = [83] \<or> h = [115] \<or> h = [383]"
    by (subst py_upper_single) (auto simp: upper_char_S)
  moreover have "py_upper h = [87] \<longleftrightarrow> h = [87] \<or> h = [119]"
    by (subst py_upper_single) (auto simp: upper_char_W)
  ultimately show ?thesis by (auto simp: code_points_def)
qed

lemma float_truediv_const:
  "r \<noteq> 0 \<Longrightarrow> \<exists>q. float_truediv x (Fin r) = Inr q"
  by (simp add: float_truediv_def)

text \<open>The converter in terms of the three contributions and the two quotients.\<close>

lemma dms_unfold:
  assumes "float_truediv (parse_or_zero min_str) (Fin 60) = Inr m60"
    and "float_truediv (parse_or_zero sec_str) (Fin 3600) = Inr s3600"
  shows "dms_to_decimal_degrees deg_str min_str sec_str hemisphere =
    Inr (if hemisphere \<in> {code_points ''S'', code_points ''s'', code_points ''W'',
                           code_points ''w'', [383]}
         then float_neg (float_add (float_add (parse_or_zero deg_str) m60) s3600)
         else float_add (float_add (parse_or_zero deg_str) m60) s3600)"
  using assms
  by (simp add: dms_to_decimal_degrees_def parse_or_zero_def py_bind_def Let_def
      hemisphere_negates del: insert_iff)

lemma dms_parse_or_zero_cong:
  assumes "parse_or_zero d = parse_or_zero d'" "parse_or_zero m = parse_or_zero m'"
    and "parse_or_zero s = parse_or_zero s'"
  shows "dms_to_decimal_degrees d m s h = dms_to_decimal_degrees d' m' s' h"
proof -
  obtain m60 where m60: "float_truediv (parse_or_zero m) (Fin 60) = Inr m60"
    using float_truediv_const[of 60] by auto
  obtain s3600 where s3600: "float_truediv (parse_or_zero s) (Fin 3600) = Inr s3600"
    using float_truediv_const[of 3600] by auto
  show ?thesis
    using dms_unfold[OF m60 s3600, of d h]
      dms_unfold[OF m60[unfolded assms] s3600[unfolded assms], of d' h]
    by (simp only: assms)
qed

section \<open>Conversions of particular strings\<close>

lemmas float_parse_defs = py_float_def spaces_to_ascii_def strip_c_spaces_def c_isspace_def
  float_literal_def is_digit_def digit_val_def digits_value_def make_float_def inf_or_nan_def
  ascii_lower_def code_points_def signed_zero_def signed_inf_def Let_def

lemma py_float_inf: "py_float ''inf'' = Inr PosInf"
  by (simp add: float_parse_defs)

lemma py_float_0: "py_float ''0'' = Inr (Fin 0)"
  by (simp add: float_parse_defs)

lemma py_float_fails:
  "py_float '''' = Inl ValueError" "py_float ''N/A'' = Inl ValueError"
  "py_float ''1..2'' = Inl ValueError" "py_float ''4 5'' = Inl ValueError"
  by (simp_all add: float_parse_defs)

lemma pow2_1024_le: "(2::rat) powi 1024 \<le> 10 powi 999"
proof -
  have "(2::rat) ^ (4 * 256) = (2 ^ 4) ^ 256" by (rule power_mult)
  also have "\<dots> \<le> (10 ^ 2) ^ 256" by (rule power_mono) simp_all
  also have "\<dots> = 10 ^ (2 * 256)" by (rule power_mult[symmetric])
  also have "\<dots> \<le> 10 ^ 999" by (rule power_increasing) simp_all
  finally have "(2::rat) ^ 1024 \<le> 10 ^ 999"
    by (simp only: mult_numeral_left_semiring_numeral num.simps mult.commute
        numeral_times_numeral mult_num_simps)
  then show ?thesis by (simp only: power_int_numeral)
qed

lemma py_float_1e999: "py_float ''1e999'' = Inr PosInf"
proof -
  have "py_float ''1e999'' = Inr (round64 (10 powi 999))"
    by (simp add: float_parse_defs del: power_int_numeral)
  then show ?thesis by (simp only: round64_overflow[OF pow2_1024_le])
qed

text \<open>Roundings used below, each with its exponent and nearest multiple of the spacing.\<close>

lemma round64_45: "round64 45 = Fin 45"
  by (rule round64_near[where e = "5" and n = 6333186975989760]) simp_all

lemma round64_30: "round64 30 = Fin 30"
  by (rule round64_near[where e = "4" and n = 8444249301319680]) simp_all

lemma round64_117: "round64 117 = Fin 117"
  by (rule round64_near[where e = "6" and n = 8233143068786688]) simp_all

lemma round64_5: "round64 5 = Fin 5"
  by (rule round64_near[where e = "2" and n = 5629499534213120]) simp_all

lemma round64_49_19: "round64 (4919 / 100) = Fin (865359631524823 / 17592186044416)"
  by (rule round64_near[where e = "5" and n = 6922877052198584]) simp_all

lemma round64_half: "round64 (1 / 2) = Fin (1 / 2)"
  by (rule round64_near[where e = "- 1" and n = 4503599627370496]) simp_all

lemma round64_45_5: "round64 (45 + 1 / 2) = Fin (91 / 2)"
  by (rule round64_near[where e = "5" and n = 6403555720167424]) simp_all

lemma round64_5_60: "round64 (5 / 60) = Fin (6004799503160661 / 72057594037927936)"
  by (rule round64_near[where e = "- 4" and n = 6004799503160661]) simp_all

lemma round64_49_19_3600: "round64 (865359631524823 / 17592186044416 / 3600) = Fin (3938347834139639 / 288230376151711744)"
  by (rule round64_near[where e = "- 7" and n = 7876695668279278]) simp_all

lemma round64_117_m: "round64 (117 + 6004799503160661 / 72057594037927936) = Fin (8239007130801493 / 70368744177664)"
  by (rule round64_near[where e = "6" and n = 8239007130801493]) simp_all

lemma round64_117_m_s: "round64 (8239007130801493 / 70368744177664 + 3938347834139639 / 288230376151711744) = Fin (8239968641503187 / 70368744177664)"
  by (rule round64_near[where e = "6" and n = 8239968641503187]) simp_all

lemma py_float_examples:
  "py_float ''45'' = Inr (Fin 45)" "py_float ''30'' = Inr (Fin 30)"
  "py_float ''117'' = Inr (Fin 117)" "py_float ''5'' = Inr (Fin 5)"
  "py_float ''49.19'' = Inr (Fin (865359631524823 / 17592186044416))"
  using round64_45 round64_30 round64_117 round64_5 round64_49_19
  by (simp_all add: float_parse_defs)

lemma parse_or_zero_examples:
  "parse_or_zero ''45'' = Fin 45" "parse_or_zero ''30'' = Fin 30" "parse_or_zero ''0'' = Fin 0"
  "parse_or_zero ''117'' = Fin 117" "parse_or_zero ''5'' = Fin 5"
  "parse_or_zero ''49.19'' = Fin (865359631524823 / 17592186044416)"
  "parse_or_zero '''' = Fin 0" "parse_or_zero ''N/A'' = Fin 0" "parse_or_zero ''1..2'' = Fin 0"
  "parse_or_zero ''4 5'' = Fin 0" "parse_or_zero ''inf'' = PosInf"
  "parse_or_zero ''1e999'' = PosInf"
  by (simp_all add: parse_or_zero_def py_float_examples py_float_0 py_float_fails py_float_inf
      py_float_1e999)

lemma dms_45_30: "dms_to_decimal_degrees ''45'' ''30'' ''0'' h =
    Inr (if h \<in> {code_points ''S'', code_points ''s'', code_points ''W'', code_points ''w'',
                   [383]}
         then Fin (- 91 / 2) else Fin (91 / 2))"
proof -
  have m: "float_truediv (parse_or_zero ''30'') (Fin 60) = Inr (Fin (1 / 2))"
    using round64_half by (simp add: parse_or_zero_examples float_truediv_def)
  have s: "float_truediv (parse_or_zero ''0'') (Fin 3600) = Inr (Fin 0)"
    by (simp add: parse_or_zero_examples float_truediv_def signed_zero_def)
  have a: "float_add (Fin 45) (Fin (1 / 2)) = Fin (91 / 2)"
    using round64_45_5 by (simp add: float_add_def)
  have b: "float_add (Fin (91 / 2)) (Fin 0) = Fin (91 / 2)"
    using round64_45_5 by (simp add: float_add_def)
  show ?thesis
    by (simp add: dms_unfold[OF m s] parse_or_zero_examples a b del: insert_iff)
qed

lemma dms_0_30: "dms_to_decimal_degrees ''N/A'' ''30'' ''1..2'' (code_points ''N'') = Inr (Fin (1 / 2))"
proof -
  have m: "float_truediv (parse_or_zero ''30'') (Fin 60) = Inr (Fin (1 / 2))"
    using round64_half by (simp add: parse_or_zero_examples float_truediv_def)
  have s: "float_truediv (parse_or_zero ''1..2'') (Fin 3600) = Inr (Fin 0)"
    by (simp add: parse_or_zero_examples float_truediv_def signed_zero_def)
  have a: "float_add (Fin 0) (Fin (1 / 2)) = Fin (1 / 2)"
    using round64_half by (simp add: float_add_def)
  have b: "float_add (Fin (1 / 2)) (Fin 0) = Fin (1 / 2)"
    using round64_half by (simp add: float_add_def)
  show ?thesis
    by (simp add: dms_unfold[OF m s] parse_or_zero_examples a b code_points_def)
qed

lemma dms_117_5: "dms_to_decimal_degrees ''117'' ''5'' ''49.19'' (code_points ''W'') =
    Inr (Fin (- 8239968641503187 / 70368744177664))"
proof -
  have m: "float_truediv (parse_or_zero ''5'') (Fin 60) =
      Inr (Fin (6004799503160661 / 72057594037927936))"
    using round64_5_60 by (simp add: parse_or_zero_examples float_truediv_def)
  have s: "float_truediv (parse_or_zero ''49.19'') (Fin 3600) =
      Inr (Fin (3938347834139639 / 288230376151711744))"
    using round64_49_19_3600 by (simp add: parse_or_zero_examples float_truediv_def)
  have a: "float_add (Fin 117) (Fin (6004799503160661 / 72057594037927936)) =
      Fin (8239007130801493 / 70368744177664)"
    using round64_117_m by (simp add: float_add_def)
  have b: "float_add (Fin (8239007130801493 / 70368744177664))
      (Fin (3938347834139639 / 288230376151711744)) = Fin (8239968641503187 / 70368744177664)"
    using round64_117_m_s by (simp add: float_add_def)
  show ?thesis
    by (simp add: dms_unfold[OF m s] parse_or_zero_examples a b code_points_def)
qed

lemma dms_empty: "dms_to_decimal_degrees '''' '''' '''' (code_points '''') = Inr (Fin 0)"
proof -
  have m: "float_truediv (parse_or_zero '''') (Fin 60) = Inr (Fin 0)"
    "float_truediv (parse_or_zero '''') (Fin 3600) = Inr (Fin 0)"
    by (simp_all add: parse_or_zero_examples float_truediv_def signed_zero_def)
  show ?thesis
    by (simp add: dms_unfold[OF m] parse_or_zero_examples float_add_def code_points_def)
qed

lemma dms_overflow:
  "dms_to_decimal_degrees ''inf'' ''0'' ''0'' (code_points ''N'') = Inr PosInf"
  "dms_to_decimal_degrees ''1e999'' ''0'' ''0'' (code_points ''N'') = Inr PosInf"
proof -
  have m: "float_truediv (parse_or_zero ''0'') (Fin 60) = Inr (Fin 0)"
    "float_truediv (parse_or_zero ''0'') (Fin 3600) = Inr (Fin 0)"
    by (simp_all add: parse_or_zero_examples float_truediv_def signed_zero_def)
  show "dms_to_decimal_degrees ''inf'' ''0'' ''0'' (code_points ''N'') = Inr PosInf"
    by (simp add: dms_unfold[OF m] parse_or_zero_examples float_add_def code_points_def)
  show "dms_to_decimal_degrees ''1e999'' ''0'' ''0'' (code_points ''N'') = Inr PosInf"
    by (simp add: dms_unfold[OF m] parse_or_zero_examples float_add_def code_points_def)
qed

section \<open>Claims about the coordinate converter\<close>

text \<open>
  Claim C4. When the degrees, minutes and seconds strings each parse as a float, to
  \<open>d\<close>, \<open>m\<close> and \<open>s\<close>, \<^verbatim>\<open>dms_to_decimal_degrees\<close> returns \<open>d + m / 60 + s / 3600\<close>, computed
  with Python's float division and addition from left to right, and negated when the
  hemisphere is S or W (in either letter case, and for the long s U+017F, whose upper
  case is S), otherwise not. In particular the conversion of
  \<^verbatim>\<open>("45", "30", "0", "N")\<close> is exactly 45.5, and that of
  \<^verbatim>\<open>("117", "5", "49.19", "W")\<close> is within 1e-4 of -117.09699.
\<close>

theorem dms_formula:
  "(py_float deg_str = Inr d \<and> py_float min_str = Inr m \<and> py_float sec_str = Inr s \<longrightarrow>
      (\<exists>m60 s3600.
         float_truediv m (Fin 60) = Inr m60 \<and> float_truediv s (Fin 3600) = Inr s3600 \<and>
         dms_to_decimal_degrees deg_str min_str sec_str hemisphere =
           Inr (if hemisphere \<in> {code_points ''S'', code_points ''s'', code_points ''W'',
                                  code_points ''w'', [383]}
                then float_neg (float_add (float_add d m60) s3600)
                else float_add (float_add d m60) s3600)))
   \<and> dms_to_decimal_degrees ''45'' ''30'' ''0'' (code_points ''N'') = Inr (Fin (91 / 2))
   \<and> (\<exists>r. dms_to_decimal_degrees ''117'' ''5'' ''49.19'' (code_points ''W'') = Inr (Fin r)
          \<and> \<bar>r - (- 11709699 / 100000)\<bar> < 1 / 10000)"
proof (intro conjI impI)
  assume p: "py_float deg_str = Inr d \<and> py_float min_str = Inr m \<and> py_float sec_str = Inr s"
  then have z: "parse_or_zero deg_str = d" "parse_or_zero min_str = m" "parse_or_zero sec_str = s"
    by (simp_all add: parse_or_zero_def)
  obtain m60 where m60: "float_truediv m (Fin 60) = Inr m60"
    using float_truediv_const[of 60] by auto
  obtain s3600 where s3600: "float_truediv s (Fin 3600) = Inr s3600"
    using float_truediv_const[of 3600] by auto
  have "dms_to_decimal_degrees deg_str min_str sec_str hemisphere =
           Inr (if hemisphere \<in> {code_points ''S'', code_points ''s'', code_points ''W'',
                                  code_points ''w'', [383]}
                then float_neg (float_add (float_add d m60) s3600)
                else float_add (float_add d m60) s3600)"
    using dms_unfold[of min_str m60 sec_str s3600 deg_str hemisphere] m60 s3600
    by (simp only: z)
  with m60 s3600 show "\<exists>m60 s3600.
         float_truediv m (Fin 60) = Inr m60 \<and> float_truediv s (Fin 3600) = Inr s3600 \<and>
         dms_to_decimal_degrees deg_str min_str sec_str hemisphere =
           Inr (if hemisphere \<in> {code_points ''S'', code_points ''s'', code_points ''W'',
                                  code_points ''w'', [383]}
                then float_neg (float_add (float_add d m60) s3600)
                else float_add (float_add d m60) s3600)"
    by blast
next
  show "dms_to_decimal_degrees ''45'' ''30'' ''0'' (code_points ''N'') = Inr (Fin (91 / 2))"
    by (simp add: dms_45_30 code_points_def)
next
  have "\<bar>(- 8239968641503187 / 70368744177664 :: rat) - (- 11709699 / 100000)\<bar> < 1 / 10000"
    by simp
  then show "\<exists>r. dms_to_decimal_degrees ''117'' ''5'' ''49.19'' (code_points ''W'') = Inr (Fin r)
          \<and> \<bar>r - (- 11709699 / 100000)\<bar> < 1 / 10000"
    using dms_117_5 by blast
qed

theorem dms_formula_witness:
  "py_float ''45'' = Inr (Fin 45) \<and> py_float ''30'' = Inr (Fin 30) \<and> py_float ''0'' = Inr (Fin 0)
   \<and> (\<exists>m60 s3600.
         float_truediv (Fin 30) (Fin 60) = Inr m60 \<and> float_truediv (Fin 0) (Fin 3600) = Inr s3600 \<and>
         dms_to_decimal_degrees ''45'' ''30'' ''0'' (code_points ''S'') =
           Inr (float_neg (float_add (float_add (Fin 45) m60) s3600)))"
  using dms_formula[of "''45''" "Fin 45" "''30''" "Fin 30" "''0''" "Fin 0" "code_points ''S''"]
  by (simp add: py_float_examples py_float_0 code_points_def)

text \<open>
  Claim C5. \<^verbatim>\<open>dms_to_decimal_degrees\<close> raises no exception on any strings. Each of the
  degrees, minutes and seconds strings that fails to parse counts as \<open>0.0\<close> by itself:
  the result is that for the string \<^verbatim>\<open>"0"\<close> in its place, so the other sub-fields
  still contribute (with unparseable degrees and seconds and 30 minutes the result is
  0.5). With four empty strings the result is \<open>0.0\<close>.
\<close>

theorem dms_parse_failure_defaults:
  "(\<exists>v. dms_to_decimal_degrees d m s h = Inr v)
   \<and> (py_float d = Inl e \<longrightarrow>
        dms_to_decimal_degrees d m s h = dms_to_decimal_degrees ''0'' m s h)
   \<and> (py_float m = Inl e \<longrightarrow>
        dms_to_decimal_degrees d m s h = dms_to_decimal_degrees d ''0'' s h)
   \<and> (py_float s = Inl e \<longrightarrow>
        dms_to_decimal_degrees d m s h = dms_to_decimal_degrees d m ''0'' h)
   \<and> py_float ''0'' = Inr (Fin 0)
   \<and> dms_to_decimal_degrees ''N/A'' ''30'' ''1..2'' (code_points ''N'') = Inr (Fin (1 / 2))
   \<and> dms_to_decimal_degrees '''' '''' '''' (code_points '''') = Inr (Fin 0)"
proof -
  have z: "parse_or_zero x = parse_or_zero ''0''" if "py_float x = Inl e" for x
    using that by (simp add: parse_or_zero_def py_float_0)
  obtain m60 where m60: "float_truediv (parse_or_zero m) (Fin 60) = Inr m60"
    using float_truediv_const[of 60] by auto
  obtain s3600 where s3600: "float_truediv (parse_or_zero s) (Fin 3600) = Inr s3600"
    using float_truediv_const[of 3600] by auto
  have 1: "\<exists>v. dms_to_decimal_degrees d m s h = Inr v"
    by (simp only: dms_unfold[OF m60 s3600]) blast
  have 2: "dms_to_decimal_degrees d m s h = dms_to_decimal_degrees ''0'' m s h"
    if "py_float d = Inl e"
    by (rule dms_parse_or_zero_cong) (simp_all only: z[OF that])
  have 3: "dms_to_decimal_degrees d m s h = dms_to_decimal_degrees d ''0'' s h"
    if "py_float m = Inl e"
    by (rule dms_parse_or_zero_cong) (simp_all only: z[OF that])
  have 4: "dms_to_decimal_degrees d m s h = dms_to_decimal_degrees d m ''0'' h"
    if "py_float s = Inl e"
    by (rule dms_parse_or_zero_cong) (simp_all only: z[OF that])
  from 1 2 3 4 py_float_0 dms_0_30 dms_empty show ?thesis by blast
qed

theorem dms_parse_failure_defaults_witness:
  "py_float ''N/A'' = Inl ValueError \<and> py_float ''4 5'' = Inl ValueError
   \<and> py_float ''1..2'' = Inl ValueError
   \<and> (\<exists>v. dms_to_decimal_degrees ''N/A'' ''4 5'' ''1..2'' (code_points ''W'') = Inr v)
   \<and> dms_to_decimal_degrees ''N/A'' ''4 5'' ''1..2'' (code_points ''W'')
       = dms_to_decimal_degrees ''0'' ''4 5'' ''1..2'' (code_points ''W'')
   \<and> dms_to_decimal_degrees ''N/A'' ''4 5'' ''1..2'' (code_points ''W'')
       = dms_to_decimal_degrees ''N/A'' ''0'' ''1..2'' (code_points ''W'')
   \<and> dms_to_decimal_degrees ''N/A'' ''4 5'' ''1..2'' (code_points ''W'')
       = dms_to_decimal_degrees ''N/A'' ''4 5'' ''0'' (code_points ''W'')"
  using dms_parse_failure_defaults[of "''N/A''" "''4 5''" "''1..2''" "code_points ''W''" ValueError]
    py_float_fails
  by blast

text \<open>
  Claim C6 says that the value is negated exactly when the hemisphere is S or W in either
  letter case, and left as it is for any other string. The code tests
  \<^verbatim>\<open>hemisphere.upper()\<close>, and the upper case of the long s (U+017F) is S: with that
  one-character hemisphere, which is none of \<^verbatim>\<open>"S"\<close>, \<^verbatim>\<open>"s"\<close>, \<^verbatim>\<open>"W"\<close>,
  \<^verbatim>\<open>"w"\<close>, the value is negated too.
\<close>

theorem dms_long_s_negates:
  "dms_to_decimal_degrees ''45'' ''30'' ''0'' [383] = Inr (Fin (- 91 / 2))
   \<and> dms_to_decimal_degrees ''45'' ''30'' ''0'' (code_points '''') = Inr (Fin (91 / 2))
   \<and> [383] \<noteq> code_points ''S'' \<and> [383] \<noteq> code_points ''s''
   \<and> [383] \<noteq> code_points ''W'' \<and> [383] \<noteq> code_points ''w''"
  by (simp add: dms_45_30 code_points_def)

text \<open>
  Claim C6, as the code has it. For all strings, \<^verbatim>\<open>dms_to_decimal_degrees\<close> negates the
  computed decimal value exactly when the upper case of the hemisphere is \<^verbatim>\<open>"S"\<close> or
  \<^verbatim>\<open>"W"\<close>, that is when the hemisphere is \<^verbatim>\<open>"S"\<close>, \<^verbatim>\<open>"s"\<close>, \<^verbatim>\<open>"W"\<close>,
  \<^verbatim>\<open>"w"\<close> or the long s (U+017F); with any other hemisphere, the empty string
  included, the result is the value itself, which is the result for the empty hemisphere.
\<close>

theorem dms_hemisphere_sign:
  "\<exists>v. dms_to_decimal_degrees d m s [] = Inr v
      \<and> dms_to_decimal_degrees d m s h =
          Inr (if h \<in> {code_points ''S'', code_points ''s'', code_points ''W'',
                        code_points ''w'', [383]}
               then float_neg v else v)
      \<and> (h \<in> {code_points ''S'', code_points ''s'', code_points ''W'', code_points ''w'', [383]}
           \<longleftrightarrow> py_upper h = code_points ''S'' \<or> py_upper h = code_points ''W'')"
proof -
  obtain m60 where m60: "float_truediv (parse_or_zero m) (Fin 60) = Inr m60"
    using float_truediv_const[of 60] by auto
  obtain s3600 where s3600: "float_truediv (parse_or_zero s) (Fin 3600) = Inr s3600"
    using float_truediv_const[of 3600] by auto
  have "dms_to_decimal_degrees d m s [] =
      Inr (float_add (float_add (parse_or_zero d) m60) s3600)"
    by (simp add: dms_unfold[OF m60 s3600] code_points_def)
  then show ?thesis
    using dms_unfold[OF m60 s3600, of d h] hemisphere_negates[of h] by blast
qed

theorem dms_hemisphere_sign_witness:
  "(\<exists>v. dms_to_decimal_degrees ''45'' ''30'' ''0'' [] = Inr v
       \<and> dms_to_decimal_degrees ''45'' ''30'' ''0'' (code_points ''w'') = Inr (float_neg v))
   \<and> dms_to_decimal_degrees ''45'' ''30'' ''0'' (code_points ''w'') = Inr (Fin (- 91 / 2))
   \<and> dms_to_decimal_degrees ''45'' ''30'' ''0'' (code_points ''W'') = Inr (Fin (- 91 / 2))
   \<and> dms_to_decimal_degrees ''45'' ''30'' ''0'' (code_points ''E'') = Inr (Fin (91 / 2))"
  using dms_hemisphere_sign[of "''45''" "''30''" "''0''" "code_points ''w''"]
  by (simp add: dms_45_30 code_points_def)

text \<open>
  Claim C7 says that the result is always finite when no input produces a NaN. The code
  returns an infinity when a sub-field parses to one, written as a decimal number beyond
  the float range or as \<^verbatim>\<open>inf\<close>; no NaN is involved.
\<close>

theorem dms_infinite_result:
  "dms_to_decimal_degrees ''1e999'' ''0'' ''0'' (code_points ''N'') = Inr PosInf
   \<and> dms_to_decimal_degrees ''inf'' ''0'' ''0'' (code_points ''N'') = Inr PosInf"
  by (simp add: dms_overflow)

text \<open>
  Claim C7, as the code has it. When each of the degrees, minutes and seconds strings
  either fails to parse or parses to a finite float of magnitude at most \<open>2 powi 1021\<close>
  (about 2.2e307), \<^verbatim>\<open>dms_to_decimal_degrees\<close> returns a finite float, of magnitude at
  most \<open>2 powi 1023\<close>.
\<close>

theorem dms_finite:
  assumes "\<forall>x. py_float deg_str = Inr x \<longrightarrow> finite_le (2 powi 1021) x"
    and "\<forall>x. py_float min_str = Inr x \<longrightarrow> finite_le (2 powi 1021) x"
    and "\<forall>x. py_float sec_str = Inr x \<longrightarrow> finite_le (2 powi 1021) x"
  shows "\<exists>v. dms_to_decimal_degrees deg_str min_str sec_str hemisphere = Inr v
           \<and> finite_le (2 powi 1023) v"
proof -
  have d: "finite_le (2 powi 1021) (parse_or_zero deg_str)"
    using assms(1) by (rule finite_le_parse_or_zero) simp
  have m: "finite_le (2 powi 1021) (parse_or_zero min_str)"
    using assms(2) by (rule finite_le_parse_or_zero) simp
  have s: "finite_le (2 powi 1021) (parse_or_zero sec_str)"
    using assms(3) by (rule finite_le_parse_or_zero) simp
  obtain m60 where m60: "float_truediv (parse_or_zero min_str) (Fin 60) = Inr m60"
    "finite_le (2 powi 1021) m60"
    using finite_le_truediv[OF m, of 60] by auto
  obtain s3600 where s3600: "float_truediv (parse_or_zero sec_str) (Fin 3600) = Inr s3600"
    "finite_le (2 powi 1021) s3600"
    using finite_le_truediv[OF s, of 3600] by auto
  have 1: "finite_le (2 powi 1022) (float_add (parse_or_zero deg_str) m60)"
    using finite_le_add[OF d m60(2)] by simp
  have "finite_le (2 powi 1022) s3600"
    using s3600(2) by (rule finite_le_mono) (simp add: power_int_increasing)
  then have 2: "finite_le (2 powi 1023) (float_add (float_add (parse_or_zero deg_str) m60) s3600)"
    using finite_le_add[OF 1, of s3600] by simp
  show ?thesis
    using 2 finite_le_neg[OF 2] by (simp add: dms_unfold[OF m60(1) s3600(1)] del: insert_iff)
qed

theorem dms_finite_witness:
  "py_float ''45'' = Inr (Fin 45) \<and> finite_le (2 powi 1021) (Fin 45)
   \<and> py_float ''30'' = Inr (Fin 30) \<and> finite_le (2 powi 1021) (Fin 30)
   \<and> py_float ''N/A'' = Inl ValueError
   \<and> (\<exists>v. dms_to_decimal_degrees ''45'' ''30'' ''N/A'' (code_points ''W'') = Inr v \<and> finite_le (2 powi 1023) v)"
proof -
  have 1: "\<forall>x. py_float ''45'' = Inr x \<longrightarrow> finite_le (2 powi 1021) x"
    by (simp add: py_float_examples)
  have 2: "\<forall>x. py_float ''30'' = Inr x \<longrightarrow> finite_le (2 powi 1021) x"
    by (simp add: py_float_examples)
  have 3: "\<forall>x. py_float ''N/A'' = Inr x \<longrightarrow> finite_le (2 powi 1021) x"
    by (simp add: py_float_fails)
  have 4: "finite_le (2 powi 1021) (Fin 45)" "finite_le (2 powi 1021) (Fin 30)"
    by simp_all
  from dms_finite[OF 1 2 3, of "code_points ''W''"] 4 show ?thesis
    by (simp only: py_float_examples py_float_fails simp_thms)
qed

end
